theory Spec2Isabelle
  imports Complex_Main "HOL-Library.Word" "HOL-Library.Log_Nat"
begin

section \<open>JavaScript strings\<close>

text \<open>
  A JavaScript string is a sequence of 16-bit code units. String literals of the source
  are written with \<open>lit\<close>, which widens each character of an Isabelle literal.
\<close>

type_synonym jsstring = "16 word list"

definition lit :: "string \<Rightarrow> jsstring" where
  "lit s = map (\<lambda>c. of_char c) s"

text \<open>
  \<open>String.prototype.trim\<close> removes the code units that ECMAScript calls WhiteSpace or
  LineTerminator from both ends of a string and leaves everything between them alone.
\<close>

definition isWhiteSpace :: "16 word \<Rightarrow> bool" where
  "isWhiteSpace c = (c \<in> set [0x09, 0x0A, 0x0B, 0x0C, 0x0D, 0x20, 0xA0, 0x1680,
     0x2000, 0x2001, 0x2002, 0x2003, 0x2004, 0x2005, 0x2006, 0x2007, 0x2008, 0x2009,
     0x200A, 0x2028, 0x2029, 0x202F, 0x205F, 0x3000, 0xFEFF])"

definition trim :: "jsstring \<Rightarrow> jsstring" where
  "trim s = rev (dropWhile isWhiteSpace (rev (dropWhile isWhiteSpace s)))"

text \<open>
  The operator \<open>||\<close> on an optional string: \<open>undefined\<close> and the empty string are
  falsy, every other string is truthy. \<open>orElse v d\<close> is \<open>v || d\<close>, \<open>orUndefined v\<close>
  is \<open>v || undefined\<close>.
\<close>

definition truthy :: "jsstring option \<Rightarrow> bool" where
  "truthy v = (case v of None \<Rightarrow> False | Some s \<Rightarrow> s \<noteq> [])"

definition orElse :: "jsstring option \<Rightarrow> jsstring \<Rightarrow> jsstring" where
  "orElse v d = (case v of None \<Rightarrow> d | Some s \<Rightarrow> if s = [] then d else s)"

definition orUndefined :: "jsstring option \<Rightarrow> jsstring option" where
  "orUndefined v = (case v of None \<Rightarrow> None | Some s \<Rightarrow> if s = [] then None else Some s)"

section \<open>JavaScript numbers\<close>

text \<open>
  A JavaScript number is an IEEE 754 binary64 value: a finite double, an infinity or NaN.
  A finite double is held as the rational it denotes. The sign of zero is not modelled;
  no number of this program is negative.
\<close>

datatype jsnum = Finite rat | PosInf | NegInf | NaN

text \<open>The exponent of a positive rational \<open>x\<close>: the \<open>e\<close> with \<open>2^e \<le> x < 2^(e+1)\<close>.\<close>

definition expo :: "rat \<Rightarrow> int" where
  "expo x =
     (case quotient_of x of
        (a, b) \<Rightarrow> if (2::rat) powi (bitlen a - bitlen b) \<le> x then bitlen a - bitlen b
                  else bitlen a - bitlen b - 1)"

text \<open>Rounding to the nearest integer, a tie going to the even one.\<close>

definition roundHalfEven :: "rat \<Rightarrow> int" where
  "roundHalfEven m =
     (if m - of_int \<lfloor>m\<rfloor> < 1 / 2 then \<lfloor>m\<rfloor>
      else if 1 / 2 < m - of_int \<lfloor>m\<rfloor> then \<lfloor>m\<rfloor> + 1
      else if even \<lfloor>m\<rfloor> then \<lfloor>m\<rfloor> else \<lfloor>m\<rfloor> + 1)"

text \<open>
  The doubles around a positive \<open>x\<close> are the multiples of \<open>2^q\<close>, where \<open>q\<close> is the
  exponent of \<open>x\<close> less the 52 fraction bits, and the least exponent is \<open>-1022\<close>
  (below it the doubles are subnormal and evenly spaced).
\<close>

definition quantum :: "rat \<Rightarrow> int" where
  "quantum x = max (expo x) (- 1022) - 52"

definition nearest :: "rat \<Rightarrow> rat" where
  "nearest x = of_int (roundHalfEven (x / (2::rat) powi quantum x)) * (2::rat) powi quantum x"

text \<open>
  Rounding a rational to binary64, to nearest with ties to even; a magnitude that rounds
  to \<open>2^1024\<close> or more overflows to an infinity.
\<close>

definition round64 :: "rat \<Rightarrow> jsnum" where
  "round64 x =
     (if x = 0 then Finite 0
      else if (2::rat) powi 1024 \<le> nearest \<bar>x\<bar> then (if x < 0 then NegInf else PosInf)
      else Finite (sgn x * nearest \<bar>x\<bar>))"

definition negative :: "jsnum \<Rightarrow> bool" where
  "negative v = (case v of Finite a \<Rightarrow> a < 0 | NegInf \<Rightarrow> True | PosInf \<Rightarrow> False | NaN \<Rightarrow> False)"

definition infinity :: "bool \<Rightarrow> jsnum" where
  "infinity neg = (if neg then NegInf else PosInf)"

text \<open>
  The operators \<open>+\<close>, \<open>*\<close> and \<open>/\<close> on numbers: the exact result, rounded; NaN for
  \<open>\<infinity> - \<infinity>\<close>, \<open>0 * \<infinity>\<close>, \<open>0 / 0\<close> and \<open>\<infinity> / \<infinity>\<close>; an infinity for a non-zero number
  divided by zero.
\<close>

fun jsadd :: "jsnum \<Rightarrow> jsnum \<Rightarrow> jsnum" where
  "jsadd (Finite a) (Finite b) = round64 (a + b)"
| "jsadd NaN y = NaN"
| "jsadd x NaN = NaN"
| "jsadd PosInf NegInf = NaN"
| "jsadd NegInf PosInf = NaN"
| "jsadd PosInf y = PosInf"
| "jsadd x PosInf = PosInf"
| "jsadd NegInf y = NegInf"
| "jsadd x NegInf = NegInf"

fun jsmul :: "jsnum \<Rightarrow> jsnum \<Rightarrow> jsnum" where
  "jsmul (Finite a) (Finite b) = round64 (a * b)"
| "jsmul NaN y = NaN"
| "jsmul x NaN = NaN"
| "jsmul (Finite a) y = (if a = 0 then NaN else infinity ((a < 0) \<noteq> negative y))"
| "jsmul x (Finite b) = (if b = 0 then NaN else infinity (negative x \<noteq> (b < 0)))"
| "jsmul x y = infinity (negative x \<noteq> negative y)"

fun jsdiv :: "jsnum \<Rightarrow> jsnum \<Rightarrow> jsnum" where
  "jsdiv (Finite a) (Finite b) =
     (if b = 0 then (if a = 0 then NaN else infinity (a < 0)) else round64 (a / b))"
| "jsdiv NaN y = NaN"
| "jsdiv x NaN = NaN"
| "jsdiv (Finite a) y = Finite 0"
| "jsdiv x (Finite b) = infinity (negative x \<noteq> (b < 0))"
| "jsdiv x y = NaN"

text \<open>
  A count (a number of test cases, of passed cases, of questions) as a number. Counts
  are array lengths, below \<open>2^32\<close>, so each is a double as it stands.
\<close>

definition ofCount :: "nat \<Rightarrow> jsnum" where
  "ofCount n = Finite (of_nat n)"

text \<open>The numbers that are doubles: rounding leaves them as they are.\<close>

definition representable :: "jsnum \<Rightarrow> bool" where
  "representable v =
     (case v of Finite x \<Rightarrow> round64 x = Finite x | PosInf \<Rightarrow> True | NegInf \<Rightarrow> True | NaN \<Rightarrow> True)"

section \<open>The data of the execution flow\<close>

datatype language = Python | Cpp | Java | Javascript

record TestCase =
  tc_id :: jsstring
  tc_input :: jsstring
  tc_expectedOutput :: jsstring

text \<open>
  A test result. The flow never gives its results an \<open>id\<close>; the submission handler
  does, when it fabricates results for a question whose execution failed.
\<close>

record TestResult =
  tr_id :: "jsstring option"
  input :: jsstring
  expectedOutput :: jsstring
  actualOutput :: jsstring
  isCorrect :: bool
  error :: "jsstring option"

record ExecuteCodeInput =
  language :: language
  sourceCode :: jsstring
  testCases :: "TestCase list"

record ExecuteCodeOutput =
  results :: "TestResult list"
  totalPassed :: nat
  totalCases :: nat

section \<open>The remote execution service\<close>

text \<open>
  A thrown JavaScript error, with its optional \<open>message\<close>.
\<close>

datatype js_error = JsError (message: "jsstring option")

text \<open>The JSON body posted to the service for one test case.\<close>

record request =
  req_language :: language
  req_version :: jsstring
  req_files :: "jsstring list"
  req_stdin :: jsstring

text \<open>
  The part of the reply that the flow reads: \<open>result.run.output\<close> and
  \<open>result.run.stderr\<close>, each of which may be missing.
\<close>

record run_info =
  run_output :: "jsstring option"
  run_stderr :: "jsstring option"

text \<open>
  A response has its \<open>ok\<close> flag and its status text. Reading its body either raises
  (\<open>response.json()\<close> rejects, or the parsed object has no \<open>run\<close> member, so that
  reading \<open>result.run.output\<close> raises a TypeError) or yields the run information.
\<close>

record response =
  ok :: bool
  statusText :: jsstring
  body :: "js_error + run_info"

text \<open>\<open>fetch\<close> either rejects with an error or resolves with a response.\<close>

datatype fetch_outcome = Rejected js_error | Resolved response

text \<open>
  The network is the environment of the flow. It is a parameter of the model: a function
  from the request and the current state of the world to the outcome of the call and the
  next state of the world.
\<close>

type_synonym 'w fetch = "request \<Rightarrow> 'w \<Rightarrow> fetch_outcome \<times> 'w"

section \<open>executeCodeFlow\<close>

definition pistonRequest :: "ExecuteCodeInput \<Rightarrow> TestCase \<Rightarrow> request" where
  "pistonRequest inp testCase =
     \<lparr>req_language = language inp, req_version = lit ''*'',
      req_files = [sourceCode inp], req_stdin = tc_input testCase\<rparr>"

text \<open>The result pushed when the response is not \<open>ok\<close>.\<close>

definition apiErrorResult :: "TestCase \<Rightarrow> response \<Rightarrow> TestResult" where
  "apiErrorResult testCase resp =
     \<lparr>tr_id = None, input = tc_input testCase, expectedOutput = tc_expectedOutput testCase,
      actualOutput = lit ''API Error: '' @ statusText resp,
      isCorrect = False,
      error = Some (lit ''API Error: '' @ statusText resp)\<rparr>"

text \<open>The result pushed by the \<open>catch\<close> block.\<close>

definition caughtResult :: "TestCase \<Rightarrow> js_error \<Rightarrow> TestResult" where
  "caughtResult testCase e =
     \<lparr>tr_id = None, input = tc_input testCase, expectedOutput = tc_expectedOutput testCase,
      actualOutput = lit ''Execution Failed'',
      isCorrect = False,
      error = Some (orElse (message e) (lit ''An unknown error occurred.''))\<rparr>"

text \<open>
  The \<open>for\<close> loop of the flow, with its two mutable variables \<open>results\<close> (here \<open>rs\<close>)
  and \<open>totalPassed\<close> (here \<open>tp\<close>) as accumulators and the world threaded through the
  calls of \<open>fetch\<close>.
\<close>

fun flowLoop ::
  "'w fetch \<Rightarrow> ExecuteCodeInput \<Rightarrow> TestCase list \<Rightarrow> TestResult list \<Rightarrow> nat \<Rightarrow> 'w
     \<Rightarrow> (TestResult list \<times> nat) \<times> 'w" where
  "flowLoop fetch inp [] rs tp w = ((rs, tp), w)"
| "flowLoop fetch inp (testCase # rest) rs tp w =
     (case fetch (pistonRequest inp testCase) w of
        (Rejected e, w') \<Rightarrow>
          flowLoop fetch inp rest (rs @ [caughtResult testCase e]) tp w'
      | (Resolved resp, w') \<Rightarrow>
          if \<not> ok resp then
            flowLoop fetch inp rest (rs @ [apiErrorResult testCase resp]) tp w'
          else
            (case body resp of
               Inl e \<Rightarrow> flowLoop fetch inp rest (rs @ [caughtResult testCase e]) tp w'
             | Inr run \<Rightarrow>
                 (let actual = trim (orElse (run_output run) []);
                      correct = (actual = trim (tc_expectedOutput testCase))
                  in flowLoop fetch inp rest
                       (rs @ [\<lparr>tr_id = None, input = tc_input testCase,
                               expectedOutput = tc_expectedOutput testCase,
                               actualOutput = actual,
                               isCorrect = correct,
                               error = orUndefined (run_stderr run)\<rparr>])
                       (if correct then tp + 1 else tp) w')))"

definition executeCodeFlow ::
  "'w fetch \<Rightarrow> ExecuteCodeInput \<Rightarrow> 'w \<Rightarrow> ExecuteCodeOutput \<times> 'w" where
  "executeCodeFlow fetch inp w =
     (case flowLoop fetch inp (testCases inp) [] 0 w of
        ((rs, tp), w') \<Rightarrow>
          (\<lparr>results = rs, totalPassed = tp, totalCases = length (testCases inp)\<rparr>, w'))"

text \<open>
  The outcomes of the calls the flow makes, in the order it makes them: one call per test
  case, each in the world the previous call left. Theorems about the \<open>i\<close>-th result
  speak of the \<open>i\<close>-th outcome.
\<close>

fun fetchTrace :: "'w fetch \<Rightarrow> ExecuteCodeInput \<Rightarrow> TestCase list \<Rightarrow> 'w \<Rightarrow> fetch_outcome list" where
  "fetchTrace fetch inp [] w = []"
| "fetchTrace fetch inp (testCase # rest) w =
     (case fetch (pistonRequest inp testCase) w of
        (out, w') \<Rightarrow> out # fetchTrace fetch inp rest w')"

text \<open>
  A scripted network for concrete runs: the world is the list of outcomes still to be
  served, and a call on an exhausted script is rejected.
\<close>

definition scripted :: "(fetch_outcome list) fetch" where
  "scripted req w =
     (case w of [] \<Rightarrow> (Rejected (JsError None), []) | out # outs \<Rightarrow> (out, outs))"

text \<open>The result the loop pushes for one test case, as a function of the call's outcome.\<close>

definition resultOf :: "TestCase \<Rightarrow> fetch_outcome \<Rightarrow> TestResult" where
  "resultOf testCase out =
     (case out of
        Rejected e \<Rightarrow> caughtResult testCase e
      | Resolved resp \<Rightarrow>
          if \<not> ok resp then apiErrorResult testCase resp
          else (case body resp of
                  Inl e \<Rightarrow> caughtResult testCase e
                | Inr run \<Rightarrow>
                    \<lparr>tr_id = None, input = tc_input testCase,
                     expectedOutput = tc_expectedOutput testCase,
                     actualOutput = trim (orElse (run_output run) []),
                     isCorrect = (trim (orElse (run_output run) []) = trim (tc_expectedOutput testCase)),
                     error = orUndefined (run_stderr run)\<rparr>))"

text \<open>
  A call through \<open>logged f\<close> is the call through \<open>f\<close> with its argument appended to a
  log that the world carries along. What the log holds after a run is what was called, in
  order.
\<close>

definition logged ::
  "('a \<Rightarrow> 'w \<Rightarrow> 'b \<times> 'w) \<Rightarrow> 'a \<Rightarrow> 'a list \<times> 'w \<Rightarrow> 'b \<times> ('a list \<times> 'w)" where
  "logged fetch req lw =
     (case lw of (calls, w) \<Rightarrow>
        (case fetch req w of (out, w') \<Rightarrow> (out, (calls @ [req], w'))))"

text \<open>
  The calls that fail: \<open>fetch\<close> rejects, the response is not \<open>ok\<close>, or reading the body
  raises.
\<close>

definition callFailed :: "fetch_outcome \<Rightarrow> bool" where
  "callFailed out =
     (case out of
        Rejected e \<Rightarrow> True
      | Resolved resp \<Rightarrow> if ok resp then isl (body resp) else True)"

subsection \<open>Concrete runs of the flow\<close>

text \<open>
  Three test cases, and two scripts for them: one where every call succeeds (a trailing
  newline, a difference of letter case, a warning on \<open>stderr\<close>), one where the first two
  calls fail.
\<close>

definition okResponse :: "jsstring \<Rightarrow> jsstring option \<Rightarrow> response" where
  "okResponse out err =
     \<lparr>ok = True, statusText = lit ''OK'', body = Inr \<lparr>run_output = Some out, run_stderr = err\<rparr>\<rparr>"

definition badResponse :: "jsstring \<Rightarrow> response" where
  "badResponse st = \<lparr>ok = False, statusText = st, body = Inl (JsError None)\<rparr>"

definition demoCases :: "TestCase list" where
  "demoCases =
     [\<lparr>tc_id = lit ''t1'', tc_input = lit ''6 7'', tc_expectedOutput = lit ''42''\<rparr>,
      \<lparr>tc_id = lit ''t2'', tc_input = lit '''', tc_expectedOutput = lit ''hello''\<rparr>,
      \<lparr>tc_id = lit ''t3'', tc_input = lit ''1'', tc_expectedOutput = lit ''1''\<rparr>]"

definition demoInput :: ExecuteCodeInput where
  "demoInput = \<lparr>language = Python, sourceCode = lit ''print(42)'', testCases = demoCases\<rparr>"

definition demoScript :: "fetch_outcome list" where
  "demoScript =
     [Resolved (okResponse (lit ''42'' @ [0x0A]) None),
      Resolved (okResponse (lit ''Hello'') None),
      Resolved (okResponse (lit ''1'') (Some (lit ''warning: unused variable'')))]"

definition failScript :: "fetch_outcome list" where
  "failScript =
     [Resolved (badResponse (lit ''Bad Request'')),
      Rejected (JsError (Some (lit ''fetch failed''))),
      Resolved (okResponse (lit ''1'') None)]"

section \<open>The exam interface\<close>

text \<open>
  An answer of the student to one question. Every member but \<open>questionId\<close> is optional.
  \<open>status\<close> holds the string the code stores: \<open>'answered'\<close> or \<open>'not-answered'\<close>.
\<close>

record StudentAnswer =
  questionId :: jsstring
  questionText :: "jsstring option"
  status :: "jsstring option"
  ans_sourceCode :: "jsstring option"
  ans_actualOutput :: "jsstring option"
  ans_isCorrect :: "bool option"
  testResults :: "TestResult list option"
  ans_totalPassed :: "nat option"
  ans_totalCases :: "nat option"
  marks :: "jsnum option"

record State =
  timeLeft :: int
  examStarted :: bool
  examFinished :: bool
  answers :: "jsstring \<rightharpoonup> StudentAnswer"
  st_language :: language

datatype Action =
    INITIALIZE State
  | START_EXAM
  | UPDATE_CODE jsstring jsstring
  | UPDATE_LANGUAGE language
  | SET_RUN_RESULT jsstring jsstring bool
  | TICK_TIMER
  | FINISH_EXAM

text \<open>The object \<open>{ questionId }\<close> that stands in for a missing answer.\<close>

definition newAnswer :: "jsstring \<Rightarrow> StudentAnswer" where
  "newAnswer qid =
     \<lparr>questionId = qid, questionText = None, status = None, ans_sourceCode = None,
      ans_actualOutput = None, ans_isCorrect = None, testResults = None,
      ans_totalPassed = None, ans_totalCases = None, marks = None\<rparr>"

fun examReducer :: "State \<Rightarrow> Action \<Rightarrow> State" where
  "examReducer state (INITIALIZE payload) = payload"
| "examReducer state START_EXAM = state\<lparr>examStarted := True\<rparr>"
| "examReducer state (UPDATE_CODE qid src) =
     (let answer = (case answers state qid of Some a \<Rightarrow> a | None \<Rightarrow> newAnswer qid)
      in state\<lparr>answers := (answers state)(qid \<mapsto> answer\<lparr>ans_sourceCode := Some src\<rparr>)\<rparr>)"
| "examReducer state (UPDATE_LANGUAGE l) = state\<lparr>st_language := l\<rparr>"
| "examReducer state (SET_RUN_RESULT qid out correct) =
     (let answer = (case answers state qid of Some a \<Rightarrow> a | None \<Rightarrow> newAnswer qid);
          updatedAnswer = answer\<lparr>ans_actualOutput := Some out, ans_isCorrect := Some correct\<rparr>;
          updatedAnswer = (if correct then updatedAnswer\<lparr>status := Some (lit ''answered'')\<rparr>
                           else updatedAnswer)
      in state\<lparr>answers := (answers state)(qid \<mapsto> updatedAnswer)\<rparr>)"
| "examReducer state TICK_TIMER =
     (if timeLeft state \<le> 1 then state\<lparr>timeLeft := 0, examFinished := True\<rparr>
      else state\<lparr>timeLeft := timeLeft state - 1\<rparr>)"
| "examReducer state FINISH_EXAM = state\<lparr>examFinished := True, timeLeft := 0\<rparr>"

record Question =
  q_id :: jsstring
  q_text :: jsstring
  q_testCases :: "TestCase list option"

record Exam =
  title :: jsstring
  questions :: "Question list option"

text \<open>
  The interface calls \<open>executeCode\<close> across the client-server boundary, so the call can
  raise by itself. It is a parameter of the handlers, like \<open>uuidv4\<close>, which draws a fresh
  identifier from the world.
\<close>

type_synonym 'w exec = "ExecuteCodeInput \<Rightarrow> 'w \<Rightarrow> (js_error + ExecuteCodeOutput) \<times> 'w"
type_synonym 'w uuidgen = "'w \<Rightarrow> jsstring \<times> 'w"

text \<open>\<open>executeCode\<close> itself hands its input to the flow and returns what the flow returns.\<close>

definition executeCode :: "'w fetch \<Rightarrow> 'w exec" where
  "executeCode fetch inp w = (case executeCodeFlow fetch inp w of (summary, w') \<Rightarrow> (Inr summary, w'))"

text \<open>
  The message of the TypeError raised on reading member \<open>m\<close> of \<open>undefined\<close>, in the
  wording of V8.
\<close>

definition typeErrorMessage :: "string \<Rightarrow> jsstring" where
  "typeErrorMessage m =
     lit (''Cannot read properties of undefined (reading '' @ [CHR 0x27] @ m @ [CHR 0x27] @ '')'')"

datatype Toast = Toast (destructive: bool) (toast_title: jsstring) (description: "jsstring option")

text \<open>What one run of \<open>handleRunCode\<close> does: the action it dispatches and the toast it shows.\<close>

record run_effects =
  dispatched :: "Action option"
  toast :: "Toast option"

definition noEffects :: run_effects where
  "noEffects = \<lparr>dispatched = None, toast = None\<rparr>"

text \<open>
  The test cases that \<open>handleRunCode\<close> sends,
  \<open>currentQuestion.testCases?.slice(0, 1) || [{ id: uuidv4(), input: '', expectedOutput: '' }]\<close>:
  the question's first test case, or one empty test case with a fresh identifier when the
  question has no \<open>testCases\<close> member. An empty array is truthy, so it is sent as it is.
\<close>

definition runCases :: "'w uuidgen \<Rightarrow> Question \<Rightarrow> 'w \<Rightarrow> TestCase list \<times> 'w" where
  "runCases uuidv4 currentQuestion w =
     (case q_testCases currentQuestion of
        Some tcs \<Rightarrow> (take 1 tcs, w)
      | None \<Rightarrow>
          (case uuidv4 w of
             (u, w') \<Rightarrow> ([\<lparr>tc_id = u, tc_input = [], tc_expectedOutput = []\<rparr>], w')))"

text \<open>
  What \<open>handleRunCode\<close> does with the summary that \<open>executeCode\<close> returned. With no
  result at all, reading \<open>singleResult.error\<close> raises into the \<open>catch\<close> block.
\<close>

definition reportRun :: "Question \<Rightarrow> ExecuteCodeOutput \<Rightarrow> run_effects" where
  "reportRun currentQuestion result =
     (case results result of
        [] \<Rightarrow>
          \<lparr>dispatched = None,
           toast = Some (Toast True (lit ''Error'') (Some (typeErrorMessage ''error'')))\<rparr>
      | singleResult # others \<Rightarrow>
          if truthy (error singleResult) then
            \<lparr>dispatched = Some (SET_RUN_RESULT (q_id currentQuestion)
                                 (orElse (error singleResult) []) False),
             toast = Some (Toast True (lit ''Execution Error'') (error singleResult))\<rparr>
          else
            \<lparr>dispatched = Some (SET_RUN_RESULT (q_id currentQuestion)
                                 (actualOutput singleResult) (isCorrect singleResult)),
             toast = (if isCorrect singleResult
                      then Some (Toast False (lit ''Test Case Passed!'')
                                   (Some (lit ''This question is now marked as answered.'')))
                      else None)\<rparr>)"

text \<open>
  \<open>handleRunCode\<close>: the guards, the call, and the \<open>catch\<close> block for a call that raises.
\<close>

definition handleRunCode ::
  "'w exec \<Rightarrow> 'w uuidgen \<Rightarrow> State option \<Rightarrow> Exam option \<Rightarrow> nat \<Rightarrow> 'w \<Rightarrow> run_effects \<times> 'w" where
  "handleRunCode exec uuidv4 stateOpt examData currentQuestionIndex w =
     (case (stateOpt, examData) of
        (Some state, Some exam) \<Rightarrow>
          (case questions exam of
             None \<Rightarrow> (noEffects, w)
           | Some qs \<Rightarrow>
               if length qs = 0 \<or> length qs \<le> currentQuestionIndex then (noEffects, w)
               else
                 (case answers state (q_id (qs ! currentQuestionIndex)) of
                    None \<Rightarrow> (noEffects, w)
                  | Some currentAnswer \<Rightarrow>
                      (case runCases uuidv4 (qs ! currentQuestionIndex) w of
                         (cases, w1) \<Rightarrow>
                           (case exec \<lparr>language = st_language state,
                                       sourceCode = orElse (ans_sourceCode currentAnswer) [],
                                       testCases = cases\<rparr> w1 of
                              (Inl e, w2) \<Rightarrow>
                                (\<lparr>dispatched = None,
                                  toast = Some (Toast True (lit ''Error'') (message e))\<rparr>, w2)
                            | (Inr result, w2) \<Rightarrow>
                                (reportRun (qs ! currentQuestionIndex) result, w2)))))
      | _ \<Rightarrow> (noEffects, w))"

text \<open>The state after the dispatched action, if any, has gone through the reducer.\<close>

definition afterRun :: "State \<Rightarrow> run_effects \<Rightarrow> State" where
  "afterRun state eff = (case dispatched eff of None \<Rightarrow> state | Some a \<Rightarrow> examReducer state a)"

definition fixedUuid :: "'w uuidgen" where
  "fixedUuid w = (lit ''123e4567-e89b-42d3-a456-426614174000'', w)"

text \<open>The status the state holds for a question; none when it holds no answer.\<close>

definition statusOf :: "State \<Rightarrow> jsstring \<Rightarrow> jsstring option" where
  "statusOf state qid = (case answers state qid of None \<Rightarrow> None | Some a \<Rightarrow> status a)"

text \<open>The action of a run that failed, for a question and the output shown.\<close>

definition failingRun :: "jsstring \<times> jsstring \<Rightarrow> Action" where
  "failingRun r = SET_RUN_RESULT (fst r) (snd r) False"

subsection \<open>A concrete exam with one question\<close>

definition demoQuestion :: Question where
  "demoQuestion = \<lparr>q_id = lit ''q1'', q_text = lit ''Echo the number.'',
                    q_testCases = Some [\<lparr>tc_id = lit ''t3'', tc_input = lit ''1'',
                                         tc_expectedOutput = lit ''1''\<rparr>]\<rparr>"

definition demoExam :: Exam where
  "demoExam = \<lparr>title = lit ''Midterm'', questions = Some [demoQuestion]\<rparr>"

definition demoAnswer :: StudentAnswer where
  "demoAnswer = (newAnswer (lit ''q1''))
     \<lparr>questionText := Some (lit ''Echo the number.''), status := Some (lit ''not-answered''),
      ans_sourceCode := Some (lit ''print(input())''), testResults := Some []\<rparr>"

definition demoState :: State where
  "demoState = \<lparr>timeLeft = 3600, examStarted = True, examFinished = False,
                 answers = [lit ''q1'' \<mapsto> demoAnswer], st_language = Python\<rparr>"

definition warnScript :: "fetch_outcome list" where
  "warnScript = [Resolved (okResponse (lit ''1'') (Some (lit ''warning: unused variable'')))]"

section \<open>Final submission\<close>

record Submission =
  studentId :: jsstring
  examId :: jsstring
  examTitle :: jsstring
  sub_answers :: "StudentAnswer list"
  score :: jsnum
  sub_language :: language
  sub_status :: jsstring
  autoSubmitted :: "bool option"
  exitCount :: "int option"

text \<open>The answer pushed for a question that has no answer or no source code.\<close>

definition notAnswered :: "Question \<Rightarrow> StudentAnswer" where
  "notAnswered question =
     \<lparr>questionId = q_id question, questionText = Some (q_text question),
      status = Some (lit ''not-answered''), ans_sourceCode = None, ans_actualOutput = None,
      ans_isCorrect = None, testResults = Some [], ans_totalPassed = None,
      ans_totalCases = None, marks = Some (Finite 0)\<rparr>"

definition submitInput :: "State \<Rightarrow> jsstring \<Rightarrow> Question \<Rightarrow> ExecuteCodeInput" where
  "submitInput state src question =
     \<lparr>language = st_language state, sourceCode = src,
      testCases = (case q_testCases question of None \<Rightarrow> [] | Some tcs \<Rightarrow> tcs)\<rparr>"

text \<open>
  \<open>marksForQuestion\<close>: the quotient is rounded to a double, then the product is.
\<close>

definition marksForQuestion :: "ExecuteCodeOutput \<Rightarrow> jsnum" where
  "marksForQuestion result =
     (if totalCases result > 0
      then jsmul (jsdiv (ofCount (totalPassed result)) (ofCount (totalCases result)))
             (Finite 100)
      else Finite 0)"

text \<open>The answer pushed after \<open>executeCode\<close> has returned.\<close>

definition gradedAnswer :: "StudentAnswer \<Rightarrow> Question \<Rightarrow> ExecuteCodeOutput \<Rightarrow> StudentAnswer" where
  "gradedAnswer answer question result =
     answer\<lparr>questionId := q_id question, questionText := Some (q_text question),
            testResults := Some (results result),
            ans_totalPassed := Some (totalPassed result),
            ans_totalCases := Some (totalCases result),
            marks := Some (marksForQuestion result)\<rparr>"

text \<open>
  The results that the \<open>catch\<close> block fabricates, one per test case, each with a fresh
  identifier.
\<close>

fun failedResults :: "'w uuidgen \<Rightarrow> TestCase list \<Rightarrow> 'w \<Rightarrow> TestResult list \<times> 'w" where
  "failedResults uuidv4 [] w = ([], w)"
| "failedResults uuidv4 (tc # tcs) w =
     (case uuidv4 w of
        (u, w1) \<Rightarrow>
          (case failedResults uuidv4 tcs w1 of
             (trs, w2) \<Rightarrow>
               (\<lparr>tr_id = Some u, input = tc_input tc, expectedOutput = tc_expectedOutput tc,
                 actualOutput = lit ''Execution Error on Submit'', isCorrect = False,
                 error = Some (lit ''Submission execution failed'')\<rparr> # trs, w2)))"

text \<open>The answer pushed by the \<open>catch\<close> block.\<close>

definition failedAnswer :: "StudentAnswer \<Rightarrow> Question \<Rightarrow> TestResult list \<Rightarrow> StudentAnswer" where
  "failedAnswer answer question trs =
     answer\<lparr>questionId := q_id question, questionText := Some (q_text question),
            testResults := Some trs, status := Some (lit ''not-answered''),
            marks := Some (Finite 0)\<rparr>"

text \<open>
  The loop over the questions, with \<open>finalAnswers\<close> and \<open>totalMarks\<close> as accumulators.
\<close>

fun gradeLoop ::
  "'w exec \<Rightarrow> 'w uuidgen \<Rightarrow> State \<Rightarrow> Question list \<Rightarrow> StudentAnswer list \<Rightarrow> jsnum \<Rightarrow> 'w
     \<Rightarrow> (StudentAnswer list \<times> jsnum) \<times> 'w" where
  "gradeLoop exec uuidv4 state [] finalAnswers totalMarks w = ((finalAnswers, totalMarks), w)"
| "gradeLoop exec uuidv4 state (question # rest) finalAnswers totalMarks w =
     (case answers state (q_id question) of
        None \<Rightarrow>
          gradeLoop exec uuidv4 state rest (finalAnswers @ [notAnswered question]) totalMarks w
      | Some answer \<Rightarrow>
          (case ans_sourceCode answer of
             None \<Rightarrow>
               gradeLoop exec uuidv4 state rest (finalAnswers @ [notAnswered question])
                 totalMarks w
           | Some src \<Rightarrow>
               if src = [] then
                 gradeLoop exec uuidv4 state rest (finalAnswers @ [notAnswered question])
                   totalMarks w
               else
                 (case exec (submitInput state src question) w of
                    (Inr result, w') \<Rightarrow>
                      gradeLoop exec uuidv4 state rest
                        (finalAnswers @ [gradedAnswer answer question result])
                        (jsadd totalMarks (marksForQuestion result)) w'
                  | (Inl e, w') \<Rightarrow>
                      (case failedResults uuidv4
                              (testCases (submitInput state src question)) w' of
                         (trs, w'') \<Rightarrow>
                           gradeLoop exec uuidv4 state rest
                             (finalAnswers @ [failedAnswer answer question trs])
                             totalMarks w''))))"

text \<open>
  \<open>handleSubmitExam\<close>, after its entry guard, up to the payload it hands to the
  persistence layer. The loop reads \<open>examData.questions || []\<close>, but the score reads
  \<open>examData.questions.length\<close>, which raises when the exam has no \<open>questions\<close> member.
\<close>

definition handleSubmitExam ::
  "'w exec \<Rightarrow> 'w uuidgen \<Rightarrow> State \<Rightarrow> jsstring \<Rightarrow> jsstring \<Rightarrow> Exam \<Rightarrow> (bool \<times> int) option \<Rightarrow> 'w
     \<Rightarrow> (js_error + Submission) \<times> 'w" where
  "handleSubmitExam exec uuidv4 state uid eid examData autoSubmitDetails w =
     (case gradeLoop exec uuidv4 state
             (case questions examData of None \<Rightarrow> [] | Some qs \<Rightarrow> qs) [] (Finite 0) w of
        ((finalAnswers, totalMarks), w') \<Rightarrow>
          (case questions examData of
             None \<Rightarrow> (Inl (JsError (Some (typeErrorMessage ''length''))), w')
           | Some qs \<Rightarrow>
               (Inr \<lparr>studentId = uid, examId = eid, examTitle = title examData,
                     sub_answers = finalAnswers,
                     score = (if length qs > 0 then jsdiv totalMarks (ofCount (length qs))
                              else Finite 0),
                     sub_language = st_language state,
                     sub_status = (case autoSubmitDetails of
                                     None \<Rightarrow> lit ''graded'' | Some d \<Rightarrow> lit ''suspicious''),
                     autoSubmitted = map_option fst autoSubmitDetails,
                     exitCount = map_option snd autoSubmitDetails\<rparr>, w')))"

text \<open>
  One iteration of the loop as a function: the answer it pushes, the marks it adds to
  \<open>totalMarks\<close> (none when it adds nothing), and the world it leaves.
\<close>

definition gradeQuestion ::
  "'w exec \<Rightarrow> 'w uuidgen \<Rightarrow> State \<Rightarrow> Question \<Rightarrow> 'w
     \<Rightarrow> (StudentAnswer \<times> jsnum option) \<times> 'w" where
  "gradeQuestion exec uuidv4 state question w =
     (case answers state (q_id question) of
        None \<Rightarrow> ((notAnswered question, None), w)
      | Some answer \<Rightarrow>
          (case ans_sourceCode answer of
             None \<Rightarrow> ((notAnswered question, None), w)
           | Some src \<Rightarrow>
               if src = [] then ((notAnswered question, None), w)
               else
                 (case exec (submitInput state src question) w of
                    (Inr result, w') \<Rightarrow>
                      ((gradedAnswer answer question result, Some (marksForQuestion result)), w')
                  | (Inl e, w') \<Rightarrow>
                      (case failedResults uuidv4
                              (testCases (submitInput state src question)) w' of
                         (trs, w'') \<Rightarrow> ((failedAnswer answer question trs, None), w'')))))"

text \<open>The source code the student has stored for a question, if any.\<close>

definition sourceOf :: "State \<Rightarrow> Question \<Rightarrow> jsstring option" where
  "sourceOf state question =
     (case answers state (q_id question) of None \<Rightarrow> None | Some a \<Rightarrow> ans_sourceCode a)"

text \<open>The calls of \<open>executeCode\<close> that grading one question issues: one or none.\<close>

definition callsFor :: "State \<Rightarrow> Question \<Rightarrow> ExecuteCodeInput list" where
  "callsFor state question =
     (case sourceOf state question of
        None \<Rightarrow> []
      | Some src \<Rightarrow> if src = [] then [] else [submitInput state src question])"

text \<open>A generator of identifiers, lifted to a world that also holds a log of calls.\<close>

definition unlogged :: "'w uuidgen \<Rightarrow> ('a list \<times> 'w) uuidgen" where
  "unlogged uuidv4 lw = (fst (uuidv4 (snd lw)), (fst lw, snd (uuidv4 (snd lw))))"

text \<open>The marks of an answer as a number, 0 for an answer without marks.\<close>

definition marksOf :: "StudentAnswer \<Rightarrow> jsnum" where
  "marksOf a = (case marks a of None \<Rightarrow> Finite 0 | Some m \<Rightarrow> m)"

text \<open>A scripted \<open>executeCode\<close>: the world is the list of outcomes still to be served.\<close>

definition scriptedExec :: "((js_error + ExecuteCodeOutput) list) exec" where
  "scriptedExec inp w =
     (case w of [] \<Rightarrow> (Inl (JsError None), []) | out # outs \<Rightarrow> (out, outs))"

text \<open>The answers and the score of a submission; none when the handler raised.\<close>

definition answersOf :: "(js_error + Submission) \<times> 'w \<Rightarrow> StudentAnswer list" where
  "answersOf r = (case fst r of Inl e \<Rightarrow> [] | Inr p \<Rightarrow> sub_answers p)"

definition scoreOf :: "(js_error + Submission) \<times> 'w \<Rightarrow> jsnum option" where
  "scoreOf r = (case fst r of Inl e \<Rightarrow> None | Inr p \<Rightarrow> Some (score p))"

subsection \<open>Concrete submissions\<close>

text \<open>
  A state with source code for \<open>q1\<close> and \<open>q2\<close> and empty source code for \<open>q3\<close>; an
  exam graded through the flow on a scripted network; and an exam graded by a scripted
  \<open>executeCode\<close> that raises for one question and returns a summary with nothing
  passed for another.
\<close>

definition mkQuestion :: "string \<Rightarrow> TestCase list \<Rightarrow> Question" where
  "mkQuestion qid tcs = \<lparr>q_id = lit qid, q_text = lit ''Solve it.'', q_testCases = Some tcs\<rparr>"

definition mkAnswer :: "string \<Rightarrow> string \<Rightarrow> StudentAnswer" where
  "mkAnswer qid src = (newAnswer (lit qid))
     \<lparr>questionText := Some (lit ''Solve it.''), status := Some (lit ''not-answered''),
      ans_sourceCode := Some (lit src), testResults := Some []\<rparr>"

definition submitState :: State where
  "submitState =
     \<lparr>timeLeft = 60, examStarted = True, examFinished = False,
      answers = [lit ''q1'' \<mapsto> mkAnswer ''q1'' ''print(1)'',
                 lit ''q2'' \<mapsto> mkAnswer ''q2'' ''print(2)'',
                 lit ''q3'' \<mapsto> mkAnswer ''q3'' ''''],
      st_language = Python\<rparr>"

definition oneCase :: "string \<Rightarrow> string \<Rightarrow> TestCase" where
  "oneCase tid expected = \<lparr>tc_id = lit tid, tc_input = [], tc_expectedOutput = lit expected\<rparr>"

definition scoreExam :: Exam where
  "scoreExam =
     \<lparr>title = lit ''Midterm'',
      questions = Some [mkQuestion ''q1'' [oneCase ''a'' ''1'', oneCase ''b'' ''1''],
                        mkQuestion ''q2'' [oneCase ''c'' ''2'', oneCase ''d'' ''3''],
                        mkQuestion ''q3'' [oneCase ''e'' ''5'']]\<rparr>"

definition scoreScript :: "fetch_outcome list" where
  "scoreScript =
     [Resolved (okResponse (lit ''1'') None), Resolved (okResponse (lit ''1'') None),
      Resolved (okResponse (lit ''2'') None), Resolved (okResponse (lit ''2'') None)]"

definition failExam :: Exam where
  "failExam =
     \<lparr>title = lit ''Midterm'',
      questions = Some [mkQuestion ''q3'' [oneCase ''e'' ''5''],
                        mkQuestion ''q1'' [oneCase ''a'' ''1''],
                        mkQuestion ''q2'' [oneCase ''c'' ''2'']]\<rparr>"

definition wrongSummary :: ExecuteCodeOutput where
  "wrongSummary =
     \<lparr>results = [\<lparr>tr_id = None, input = [], expectedOutput = lit ''2'',
                   actualOutput = lit ''7'', isCorrect = False, error = None\<rparr>],
      totalPassed = 0, totalCases = 1\<rparr>"

definition failScript2 :: "(js_error + ExecuteCodeOutput) list" where
  "failScript2 = [Inl (JsError (Some (lit ''Failed to fetch''))), Inr wrongSummary]"

text \<open>An exam object without a \<open>questions\<close> member.\<close>

definition noQuestionsExam :: Exam where
  "noQuestionsExam = \<lparr>title = lit ''Midterm'', questions = None\<rparr>"

text \<open>A summary of 25 test cases of which 7 passed.\<close>

definition sevenOf25 :: ExecuteCodeOutput where
  "sevenOf25 =
     \<lparr>results =
        replicate 7 \<lparr>tr_id = None, input = [], expectedOutput = lit ''1'',
                      actualOutput = lit ''1'', isCorrect = True, error = None\<rparr>
        @ replicate 18 \<lparr>tr_id = None, input = [], expectedOutput = lit ''1'',
                         actualOutput = lit ''0'', isCorrect = False, error = None\<rparr>,
      totalPassed = 7, totalCases = 25\<rparr>"


section \<open>The loop, characterised\<close>

lemma flowLoop_results:
  "fst (fst (flowLoop fetch inp tcs rs tp w)) =
     rs @ map2 resultOf tcs (fetchTrace fetch inp tcs w)"
proof (induction tcs arbitrary: rs tp w)
  case Nil
  show ?case by simp
next
  case (Cons testCase rest)
  show ?case
    by (simp add: Cons.IH resultOf_def Let_def split: prod.split fetch_outcome.split sum.split)
qed

lemma flowLoop_totalPassed:
  "snd (fst (flowLoop fetch inp tcs rs tp w)) =
     tp + length (filter isCorrect (map2 resultOf tcs (fetchTrace fetch inp tcs w)))"
proof (induction tcs arbitrary: rs tp w)
  case Nil
  show ?case by simp
next
  case (Cons testCase rest)
  show ?case
    by (simp add: Cons.IH resultOf_def caughtResult_def apiErrorResult_def Let_def
             split: prod.split fetch_outcome.split sum.split)
qed

lemma length_fetchTrace: "length (fetchTrace fetch inp tcs w) = length tcs"
  by (induction tcs arbitrary: w) (simp_all split: prod.split)

lemma executeCodeFlow_results:
  "results (fst (executeCodeFlow fetch inp w)) =
     map2 resultOf (testCases inp) (fetchTrace fetch inp (testCases inp) w)"
proof -
  have "results (fst (executeCodeFlow fetch inp w)) =
        fst (fst (flowLoop fetch inp (testCases inp) [] 0 w))"
    by (simp add: executeCodeFlow_def split: prod.split)
  then show ?thesis by (simp add: flowLoop_results)
qed

lemma executeCodeFlow_nth:
  assumes "i < length (testCases inp)"
  shows "results (fst (executeCodeFlow fetch inp w)) ! i =
         resultOf (testCases inp ! i) (fetchTrace fetch inp (testCases inp) w ! i)"
  using assms by (simp add: executeCodeFlow_results length_fetchTrace)

lemma input_resultOf: "input (resultOf testCase out) = tc_input testCase"
  by (simp add: resultOf_def caughtResult_def apiErrorResult_def
           split: fetch_outcome.split sum.split)

lemma expectedOutput_resultOf: "expectedOutput (resultOf testCase out) = tc_expectedOutput testCase"
  by (simp add: resultOf_def caughtResult_def apiErrorResult_def
           split: fetch_outcome.split sum.split)

lemma map_input_resultOf:
  "length outs = length tcs \<Longrightarrow> map input (map2 resultOf tcs outs) = map tc_input tcs"
  by (induction tcs outs rule: list_induct2') (simp_all add: input_resultOf)

lemma map_expectedOutput_resultOf:
  "length outs = length tcs \<Longrightarrow>
   map expectedOutput (map2 resultOf tcs outs) = map tc_expectedOutput tcs"
  by (induction tcs outs rule: list_induct2') (simp_all add: expectedOutput_resultOf)

section \<open>Shape of the summary\<close>

text \<open>
  C3. For every network, input and world, the summary has one result per test case, in
  the order of the test cases; \<open>totalCases\<close> is the number of test cases; and each
  result carries the \<open>input\<close> and \<open>expectedOutput\<close> of its test case unchanged. With no
  test cases the summary is empty with both counters zero.
\<close>

theorem executeCodeFlow_shape:
  "length (results (fst (executeCodeFlow fetch inp w))) = length (testCases inp)
   \<and> totalCases (fst (executeCodeFlow fetch inp w)) = length (testCases inp)
   \<and> map input (results (fst (executeCodeFlow fetch inp w))) = map tc_input (testCases inp)
   \<and> map expectedOutput (results (fst (executeCodeFlow fetch inp w)))
       = map tc_expectedOutput (testCases inp)
   \<and> (testCases inp = [] \<longrightarrow>
        fst (executeCodeFlow fetch inp w) = \<lparr>results = [], totalPassed = 0, totalCases = 0\<rparr>)"
proof -
  have len: "length (results (fst (executeCodeFlow fetch inp w))) = length (testCases inp)"
    by (simp add: executeCodeFlow_results length_fetchTrace)
  have tot: "totalCases (fst (executeCodeFlow fetch inp w)) = length (testCases inp)"
    by (simp add: executeCodeFlow_def split: prod.split)
  have inp: "map input (results (fst (executeCodeFlow fetch inp w))) = map tc_input (testCases inp)"
    by (simp only: executeCodeFlow_results map_input_resultOf [OF length_fetchTrace])
  have exp: "map expectedOutput (results (fst (executeCodeFlow fetch inp w)))
             = map tc_expectedOutput (testCases inp)"
    by (simp only: executeCodeFlow_results map_expectedOutput_resultOf [OF length_fetchTrace])
  have emp: "testCases inp = [] \<longrightarrow>
        fst (executeCodeFlow fetch inp w) = \<lparr>results = [], totalPassed = 0, totalCases = 0\<rparr>"
    by (simp add: executeCodeFlow_def)
  from len tot inp exp emp show ?thesis by blast
qed

lemma logged_apply:
  "logged fetch req (calls, w) = (fst (fetch req w), (calls @ [req], snd (fetch req w)))"
  by (simp add: logged_def split: prod.split)

lemma flowLoop_logged:
  "flowLoop (logged fetch) inp tcs rs tp (calls, w) =
     (fst (flowLoop fetch inp tcs rs tp w),
      (calls @ map (pistonRequest inp) tcs, snd (flowLoop fetch inp tcs rs tp w)))"
proof (induction tcs arbitrary: rs tp w calls)
  case Nil
  show ?case by simp
next
  case (Cons testCase rest)
  show ?case
    by (cases "fetch (pistonRequest inp testCase) w")
       (simp add: Cons.IH logged_apply Let_def split: fetch_outcome.split sum.split)
qed

lemma executeCodeFlow_logged:
  "executeCodeFlow (logged fetch) inp (calls, w) =
     (fst (executeCodeFlow fetch inp w),
      (calls @ map (pistonRequest inp) (testCases inp), snd (executeCodeFlow fetch inp w)))"
  by (simp add: executeCodeFlow_def flowLoop_logged split: prod.split)

lemma dropWhile_all: "list_all P xs \<Longrightarrow> dropWhile P (xs @ ys) = dropWhile P ys"
  by (induction xs) simp_all

lemma dropWhile_Nil: "list_all P xs \<Longrightarrow> dropWhile P xs = []"
  by (induction xs) simp_all

lemma trim_blank: "list_all isWhiteSpace s \<Longrightarrow> trim s = []"
  by (simp add: trim_def dropWhile_Nil)

lemma trim_surround:
  assumes "list_all isWhiteSpace pre" and "list_all isWhiteSpace post"
  shows "trim (pre @ s @ post) = trim s"
proof -
  have 1: "dropWhile isWhiteSpace (pre @ s @ post) = dropWhile isWhiteSpace (s @ post)"
    using assms(1) by (rule dropWhile_all)
  have 2: "list_all isWhiteSpace (rev post)"
    using assms(2) by (simp add: list_all_iff)
  show ?thesis
  proof (cases "list_all isWhiteSpace s")
    case True
    then have "list_all isWhiteSpace (pre @ s @ post)" using assms by simp
    then have "trim (pre @ s @ post) = []" by (rule trim_blank)
    then show ?thesis using True by (simp add: trim_blank)
  next
    case False
    then obtain x where "x \<in> set s" "\<not> isWhiteSpace x" by (auto simp: list_all_iff)
    then have "dropWhile isWhiteSpace (s @ post) = dropWhile isWhiteSpace s @ post"
      by (simp add: dropWhile_append1)
    then show ?thesis
      by (simp add: trim_def 1 dropWhile_all [OF 2])
  qed
qed

lemma trim_decompose:
  "\<exists>pre post. s = pre @ trim s @ post \<and> list_all isWhiteSpace pre \<and> list_all isWhiteSpace post"
proof -
  let ?t = "dropWhile isWhiteSpace s"
  have a: "s = takeWhile isWhiteSpace s @ ?t" by simp
  have b: "rev ?t = takeWhile isWhiteSpace (rev ?t) @ dropWhile isWhiteSpace (rev ?t)" by simp
  have "?t = rev (rev ?t)" by simp
  also have "\<dots> = rev (takeWhile isWhiteSpace (rev ?t) @ dropWhile isWhiteSpace (rev ?t))"
    by (simp only: takeWhile_dropWhile_id)
  also have "\<dots> = trim s @ rev (takeWhile isWhiteSpace (rev ?t))"
    by (simp only: rev_append trim_def)
  finally have c: "?t = trim s @ rev (takeWhile isWhiteSpace (rev ?t))" .
  have d: "list_all isWhiteSpace (takeWhile isWhiteSpace s)"
    by (simp add: list_all_iff) (meson set_takeWhileD)
  have e: "list_all isWhiteSpace (rev (takeWhile isWhiteSpace (rev ?t)))"
    by (simp add: list_all_iff) (meson set_takeWhileD)
  from a c have "s = takeWhile isWhiteSpace s @ trim s @ rev (takeWhile isWhiteSpace (rev ?t))"
    by simp
  with d e show ?thesis by blast
qed

section \<open>Counting and comparing\<close>

text \<open>
  C4. For every network, input and world, \<open>totalPassed\<close> of the summary is the number
  of results whose \<open>isCorrect\<close> is true.
\<close>

theorem executeCodeFlow_totalPassed:
  "totalPassed (fst (executeCodeFlow fetch inp w)) =
     length (filter isCorrect (results (fst (executeCodeFlow fetch inp w))))"
proof -
  have "totalPassed (fst (executeCodeFlow fetch inp w)) =
        snd (fst (flowLoop fetch inp (testCases inp) [] 0 w))"
    by (simp add: executeCodeFlow_def split: prod.split)
  then show ?thesis
    by (simp add: flowLoop_totalPassed executeCodeFlow_results)
qed

text \<open>
  C1. When the call for the \<open>i\<close>-th test case resolves with an \<open>ok\<close> response whose
  body can be read, the result's \<open>actualOutput\<close> is the trimmed output (the empty string
  for a missing output), and \<open>isCorrect\<close> holds exactly when that equals the trimmed
  expected output, as sequences of code units: nothing is changed inside the strings and
  letter case counts. In particular an output that is the expected output between runs of
  white space is correct.
\<close>

theorem executeCodeFlow_isCorrect:
  assumes "i < length (testCases inp)"
    and "fetchTrace fetch inp (testCases inp) w ! i = Resolved resp"
    and "ok resp"
    and "body resp = Inr run"
  shows "actualOutput (results (fst (executeCodeFlow fetch inp w)) ! i)
           = trim (orElse (run_output run) [])
       \<and> (isCorrect (results (fst (executeCodeFlow fetch inp w)) ! i)
            \<longleftrightarrow> trim (orElse (run_output run) []) = trim (tc_expectedOutput (testCases inp ! i)))
       \<and> (\<forall>pre post. list_all isWhiteSpace pre \<and> list_all isWhiteSpace post
             \<and> run_output run = Some (pre @ tc_expectedOutput (testCases inp ! i) @ post)
            \<longrightarrow> isCorrect (results (fst (executeCodeFlow fetch inp w)) ! i))"
proof -
  let ?r = "results (fst (executeCodeFlow fetch inp w)) ! i"
  have r: "?r = resultOf (testCases inp ! i) (Resolved resp)"
    using assms(1,2) by (simp add: executeCodeFlow_nth)
  have 1: "actualOutput ?r = trim (orElse (run_output run) [])"
    using assms(3,4) by (simp add: r resultOf_def)
  have 2: "isCorrect ?r
            \<longleftrightarrow> trim (orElse (run_output run) []) = trim (tc_expectedOutput (testCases inp ! i))"
    using assms(3,4) by (simp add: r resultOf_def)
  have 3: "isCorrect ?r"
    if "list_all isWhiteSpace pre" "list_all isWhiteSpace post"
       "run_output run = Some (pre @ tc_expectedOutput (testCases inp ! i) @ post)"
    for pre post
  proof -
    have "orElse (run_output run) [] = pre @ tc_expectedOutput (testCases inp ! i) @ post"
      using that(3) by (simp add: orElse_def)
    then show ?thesis using that(1,2) by (simp add: 2 trim_surround)
  qed
  from 1 2 3 show ?thesis by blast
qed

lemmas demo_defs = demoInput_def demoCases_def demoScript_def failScript_def okResponse_def
  badResponse_def scripted_def pistonRequest_def

section \<open>Failing calls\<close>

text \<open>
  C2. When the call for the \<open>i\<close>-th test case fails (\<open>fetch\<close> rejects, the response
  is not \<open>ok\<close>, or reading the body raises), the \<open>i\<close>-th result has \<open>isCorrect\<close>
  false, a non-empty \<open>error\<close>, and as \<open>actualOutput\<close> the text \<open>Execution Failed\<close> or
  \<open>API Error: \<close> followed by the status text. The batch goes on: there is one result per
  test case, a request is issued for every test case, in order, and every result is the
  one that its own call's outcome gives.
\<close>

theorem executeCodeFlow_failure:
  assumes "i < length (testCases inp)"
    and "callFailed (fetchTrace fetch inp (testCases inp) w ! i)"
  shows "\<not> isCorrect (results (fst (executeCodeFlow fetch inp w)) ! i)
       \<and> (\<exists>e. error (results (fst (executeCodeFlow fetch inp w)) ! i) = Some e \<and> e \<noteq> [])
       \<and> actualOutput (results (fst (executeCodeFlow fetch inp w)) ! i) \<noteq> []
       \<and> actualOutput (results (fst (executeCodeFlow fetch inp w)) ! i) =
           (case fetchTrace fetch inp (testCases inp) w ! i of
              Rejected e \<Rightarrow> lit ''Execution Failed''
            | Resolved resp \<Rightarrow>
                if ok resp then lit ''Execution Failed''
                else lit ''API Error: '' @ statusText resp)
       \<and> length (results (fst (executeCodeFlow fetch inp w))) = length (testCases inp)
       \<and> fst (snd (executeCodeFlow (logged fetch) inp ([], w)))
           = map (pistonRequest inp) (testCases inp)
       \<and> (\<forall>j < length (testCases inp).
             results (fst (executeCodeFlow fetch inp w)) ! j =
               resultOf (testCases inp ! j) (fetchTrace fetch inp (testCases inp) w ! j))"
proof -
  let ?out = "fetchTrace fetch inp (testCases inp) w ! i"
  let ?r = "results (fst (executeCodeFlow fetch inp w)) ! i"
  have r: "?r = resultOf (testCases inp ! i) ?out"
    using assms(1) by (rule executeCodeFlow_nth)
  have nonempty: "orElse m (lit ''An unknown error occurred.'') \<noteq> []" for m
    by (simp add: orElse_def lit_def split: option.split)
  have 1: "\<not> isCorrect ?r"
    using assms(2)
    by (auto simp: r resultOf_def callFailed_def caughtResult_def apiErrorResult_def isl_def
             split: fetch_outcome.splits if_splits)
  have 2: "\<exists>e. error ?r = Some e \<and> e \<noteq> []"
    using assms(2) nonempty
    by (auto simp: r resultOf_def callFailed_def caughtResult_def apiErrorResult_def lit_def
                   isl_def
             split: fetch_outcome.splits if_splits)
  have 4: "actualOutput ?r =
           (case ?out of
              Rejected e \<Rightarrow> lit ''Execution Failed''
            | Resolved resp \<Rightarrow>
                if ok resp then lit ''Execution Failed''
                else lit ''API Error: '' @ statusText resp)"
    using assms(2)
    by (auto simp: r resultOf_def callFailed_def caughtResult_def apiErrorResult_def isl_def
             split: fetch_outcome.splits if_splits)
  have 3: "actualOutput ?r \<noteq> []"
    by (simp add: 4 lit_def split: fetch_outcome.split)
  have 5: "length (results (fst (executeCodeFlow fetch inp w))) = length (testCases inp)"
    by (simp add: executeCodeFlow_results length_fetchTrace)
  have 6: "fst (snd (executeCodeFlow (logged fetch) inp ([], w)))
           = map (pistonRequest inp) (testCases inp)"
    by (simp add: executeCodeFlow_logged)
  have 7: "\<forall>j < length (testCases inp).
             results (fst (executeCodeFlow fetch inp w)) ! j =
               resultOf (testCases inp ! j) (fetchTrace fetch inp (testCases inp) w ! j)"
    by (simp add: executeCodeFlow_nth)
  from 1 2 3 4 5 6 7 show ?thesis by blast
qed

text \<open>
  C8. When the call for the \<open>i\<close>-th test case succeeds and the reply carries a non-empty
  \<open>stderr\<close>, that text is the result's \<open>error\<close>, and \<open>isCorrect\<close> is still decided by
  the comparison of the trimmed outputs alone: a result can carry an \<open>error\<close> and be
  correct.
\<close>

theorem executeCodeFlow_stderr:
  assumes "i < length (testCases inp)"
    and "fetchTrace fetch inp (testCases inp) w ! i = Resolved resp"
    and "ok resp"
    and "body resp = Inr run"
    and "run_stderr run = Some e"
    and "e \<noteq> []"
  shows "error (results (fst (executeCodeFlow fetch inp w)) ! i) = Some e
       \<and> (isCorrect (results (fst (executeCodeFlow fetch inp w)) ! i)
            \<longleftrightarrow> trim (orElse (run_output run) []) = trim (tc_expectedOutput (testCases inp ! i)))"
proof -
  have "results (fst (executeCodeFlow fetch inp w)) ! i
          = resultOf (testCases inp ! i) (Resolved resp)"
    using assms(1,2) by (simp add: executeCodeFlow_nth)
  then show ?thesis
    using assms(3-6) by (simp add: resultOf_def orUndefined_def)
qed

lemma demo_trace:
  "fetchTrace scripted demoInput (testCases demoInput) demoScript = demoScript"
  by (simp add: demo_defs)

lemma fail_trace:
  "fetchTrace scripted demoInput (testCases demoInput) failScript = failScript"
  by (simp add: demo_defs)

theorem executeCodeFlow_totalPassed_witness:
  "totalPassed (fst (executeCodeFlow scripted demoInput demoScript)) = 2
   \<and> map isCorrect (results (fst (executeCodeFlow scripted demoInput demoScript)))
       = [True, False, True]"
proof -
  have r: "map isCorrect (results (fst (executeCodeFlow scripted demoInput demoScript)))
           = [True, False, True]"
    by (simp add: executeCodeFlow_results demo_trace)
       (simp add: demo_defs resultOf_def orElse_def trim_def lit_def isWhiteSpace_def)
  have "length (filter isCorrect (results (fst (executeCodeFlow scripted demoInput demoScript))))
        = length (filter id (map isCorrect
            (results (fst (executeCodeFlow scripted demoInput demoScript)))))"
    by (simp add: filter_map comp_def)
  then show ?thesis
    using executeCodeFlow_totalPassed [of scripted demoInput demoScript]
    by (simp add: r)
qed

theorem executeCodeFlow_isCorrect_witness:
  "isCorrect (results (fst (executeCodeFlow scripted demoInput demoScript)) ! 0)
   \<and> \<not> isCorrect (results (fst (executeCodeFlow scripted demoInput demoScript)) ! 1)"
proof -
  have len0: "0 < length (testCases demoInput)" and len1: "1 < length (testCases demoInput)"
    by (simp_all add: demo_defs)
  have t0: "fetchTrace scripted demoInput (testCases demoInput) demoScript ! 0
              = Resolved (okResponse (lit ''42'' @ [0x0A]) None)"
    and t1: "fetchTrace scripted demoInput (testCases demoInput) demoScript ! 1
              = Resolved (okResponse (lit ''Hello'') None)"
    by (simp_all add: demo_trace) (simp_all add: demoScript_def)
  have ok0: "ok (okResponse out err)" for out err
    by (simp add: okResponse_def)
  have b: "body (okResponse out err) = Inr \<lparr>run_output = Some out, run_stderr = err\<rparr>" for out err
    by (simp add: okResponse_def)
  have "isCorrect (results (fst (executeCodeFlow scripted demoInput demoScript)) ! 0)
          \<longleftrightarrow> trim (lit ''42'' @ [0x0A]) = trim (lit ''42'')"
    using executeCodeFlow_isCorrect [OF len0 t0 ok0 b]
    by (simp add: orElse_def demo_defs)
  moreover have "isCorrect (results (fst (executeCodeFlow scripted demoInput demoScript)) ! 1)
          \<longleftrightarrow> trim (lit ''Hello'') = trim (lit ''hello'')"
    using executeCodeFlow_isCorrect [OF len1 t1 ok0 b]
    by (simp add: orElse_def demo_defs)
  ultimately show ?thesis
    by (simp add: trim_def lit_def isWhiteSpace_def)
qed

theorem executeCodeFlow_stderr_witness:
  "error (results (fst (executeCodeFlow scripted demoInput demoScript)) ! 2)
     = Some (lit ''warning: unused variable'')
   \<and> isCorrect (results (fst (executeCodeFlow scripted demoInput demoScript)) ! 2)"
proof -
  have len: "2 < length (testCases demoInput)"
    by (simp add: demo_defs)
  have t: "fetchTrace scripted demoInput (testCases demoInput) demoScript ! 2
              = Resolved (okResponse (lit ''1'') (Some (lit ''warning: unused variable'')))"
    by (simp add: demo_trace) (simp add: demoScript_def)
  have o: "ok (okResponse out err)" for out err
    by (simp add: okResponse_def)
  have b: "body (okResponse out err) = Inr \<lparr>run_output = Some out, run_stderr = err\<rparr>" for out err
    by (simp add: okResponse_def)
  have s: "run_stderr \<lparr>run_output = Some (lit ''1''),
              run_stderr = Some (lit ''warning: unused variable'')\<rparr>
            = Some (lit ''warning: unused variable'')"
    by simp
  have n: "lit ''warning: unused variable'' \<noteq> []"
    by (simp add: lit_def)
  show ?thesis
    using executeCodeFlow_stderr [OF len t o b s n]
    by (simp add: orElse_def demo_defs trim_def lit_def isWhiteSpace_def)
qed

theorem executeCodeFlow_failure_witness:
  "callFailed (fetchTrace scripted demoInput (testCases demoInput) failScript ! 0)
   \<and> \<not> isCorrect (results (fst (executeCodeFlow scripted demoInput failScript)) ! 0)
   \<and> actualOutput (results (fst (executeCodeFlow scripted demoInput failScript)) ! 0)
        = lit ''API Error: Bad Request''
   \<and> length (results (fst (executeCodeFlow scripted demoInput failScript))) = 3
   \<and> isCorrect (results (fst (executeCodeFlow scripted demoInput failScript)) ! 2)"
proof -
  have len: "0 < length (testCases demoInput)"
    by (simp add: demo_defs)
  have f: "callFailed (fetchTrace scripted demoInput (testCases demoInput) failScript ! 0)"
    by (simp add: fail_trace) (simp add: failScript_def callFailed_def badResponse_def)
  have two: "(2::nat) < 3" by simp
  show ?thesis
    using f executeCodeFlow_failure [OF len f]
    apply (simp add: fail_trace)
    apply (simp add: demo_defs resultOf_def trim_def lit_def isWhiteSpace_def orElse_def)
    done
qed

theorem executeCodeFlow_shape_witness:
  "testCases (demoInput\<lparr>testCases := []\<rparr>) = []
   \<and> fst (executeCodeFlow scripted (demoInput\<lparr>testCases := []\<rparr>) demoScript)
       = \<lparr>results = [], totalPassed = 0, totalCases = 0\<rparr>"
  using executeCodeFlow_shape [of scripted "demoInput\<lparr>testCases := []\<rparr>" demoScript]
  by simp

lemma statusOf_failing:
  "statusOf (examReducer state (SET_RUN_RESULT q out False)) qid = statusOf state qid"
  by (simp add: statusOf_def newAnswer_def split: option.split)

lemma statusOf_failingRuns:
  "statusOf (foldl examReducer state (map failingRun runs)) qid = statusOf state qid"
  by (induction runs arbitrary: state)
     (simp_all add: failingRun_def statusOf_failing del: examReducer.simps)

section \<open>The reducer and the interactive run\<close>

text \<open>
  C10. After \<open>SET_RUN_RESULT\<close> for a question, the question's status is \<open>'answered'\<close>
  if the run was correct and otherwise what it was before; the status of every other
  question is untouched. So a question that is \<open>'answered'\<close> stays so through any
  sequence of failing runs. Among the actions other than \<open>INITIALIZE\<close>, which replaces
  the whole state by its payload, only a correct run changes a status.
\<close>

theorem examReducer_status:
  "statusOf (examReducer state (SET_RUN_RESULT qid out correct)) qid
     = (if correct then Some (lit ''answered'') else statusOf state qid)
   \<and> (\<forall>q. q \<noteq> qid \<longrightarrow>
         statusOf (examReducer state (SET_RUN_RESULT qid out correct)) q = statusOf state q)
   \<and> (statusOf state qid = Some (lit ''answered'') \<longrightarrow>
         statusOf (foldl examReducer state (map failingRun runs)) qid = Some (lit ''answered''))
   \<and> (\<forall>a. (\<forall>p. a \<noteq> INITIALIZE p) \<and> (\<forall>q t. a \<noteq> SET_RUN_RESULT q t True) \<longrightarrow>
         statusOf (examReducer state a) qid = statusOf state qid)"
proof -
  have 1: "statusOf (examReducer state (SET_RUN_RESULT qid out correct)) qid
     = (if correct then Some (lit ''answered'') else statusOf state qid)"
    by (simp add: statusOf_def newAnswer_def split: option.split)
  have 2: "\<forall>q. q \<noteq> qid \<longrightarrow>
         statusOf (examReducer state (SET_RUN_RESULT qid out correct)) q = statusOf state q"
    by (simp add: statusOf_def Let_def)
  have 3: "statusOf state qid = Some (lit ''answered'') \<longrightarrow>
         statusOf (foldl examReducer state (map failingRun runs)) qid = Some (lit ''answered'')"
    by (simp add: statusOf_failingRuns)
  have 4: "statusOf (examReducer state a) qid = statusOf state qid"
    if "\<forall>p. a \<noteq> INITIALIZE p" and "\<forall>q t. a \<noteq> SET_RUN_RESULT q t True" for a
  proof (cases a)
    case (INITIALIZE p)
    with that(1) show ?thesis by simp
  next
    case (SET_RUN_RESULT q t c)
    with that(2) have "c = False" by (cases c) simp_all
    with SET_RUN_RESULT show ?thesis by (simp only: statusOf_failing)
  next
    case (UPDATE_CODE q src)
    then show ?thesis by (simp add: statusOf_def newAnswer_def Let_def split: option.split)
  qed (simp_all add: statusOf_def)
  from 1 2 3 4 show ?thesis by blast
qed

theorem examReducer_status_witness:
  "statusOf (examReducer demoState (SET_RUN_RESULT (lit ''q1'') (lit ''1'') True)) (lit ''q1'')
     = Some (lit ''answered'')
   \<and> statusOf (foldl examReducer
                  (examReducer demoState (SET_RUN_RESULT (lit ''q1'') (lit ''1'') True))
                  (map failingRun [(lit ''q1'', lit ''2''), (lit ''q1'', lit ''wrong'')]))
        (lit ''q1'') = Some (lit ''answered'')
   \<and> statusOf (examReducer demoState (SET_RUN_RESULT (lit ''q1'') (lit ''2'') False)) (lit ''q1'')
     = Some (lit ''not-answered'')"
proof -
  let ?s = "examReducer demoState (SET_RUN_RESULT (lit ''q1'') (lit ''1'') True)"
  have a: "statusOf ?s (lit ''q1'') = Some (lit ''answered'')"
    using examReducer_status [of demoState "lit ''q1''" "lit ''1''" True "[]"] by simp
  have b: "statusOf (foldl examReducer ?s
             (map failingRun [(lit ''q1'', lit ''2''), (lit ''q1'', lit ''wrong'')])) (lit ''q1'')
           = Some (lit ''answered'')"
    using a examReducer_status [of ?s "lit ''q1''" "lit ''1''" True
                                   "[(lit ''q1'', lit ''2''), (lit ''q1'', lit ''wrong'')]"]
    by blast
  have c: "statusOf (examReducer demoState (SET_RUN_RESULT (lit ''q1'') (lit ''2'') False))
             (lit ''q1'') = Some (lit ''not-answered'')"
    using examReducer_status [of demoState "lit ''q1''" "lit ''2''" False "[]"]
    by (simp add: statusOf_def demoState_def demoAnswer_def newAnswer_def)
  from a b c show ?thesis by blast
qed

text \<open>
  C9. In \<open>handleRunCode\<close>, when the first result of the summary carries a non-empty
  \<open>error\<close>, the action dispatched is \<open>SET_RUN_RESULT\<close> with the error text as
  \<open>actualOutput\<close> and \<open>isCorrect\<close> false, whatever the result's own \<open>isCorrect\<close> is, and
  a destructive toast shows the error. Whatever state the reducer then applies the action
  to, the question's answer records the error text and a failed run, and keeps its status.
\<close>

theorem handleRunCode_error:
  assumes "questions exam = Some qs"
    and "i < length qs"
    and "answers state (q_id (qs ! i)) = Some a"
    and "runCases uuidv4 (qs ! i) w = (cases, w1)"
    and "exec \<lparr>language = st_language state, sourceCode = orElse (ans_sourceCode a) [],
               testCases = cases\<rparr> w1 = (Inr result, w2)"
    and "results result = r # others"
    and "error r = Some e"
    and "e \<noteq> []"
  shows "fst (handleRunCode exec uuidv4 (Some state) (Some exam) i w)
           = \<lparr>dispatched = Some (SET_RUN_RESULT (q_id (qs ! i)) e False),
              toast = Some (Toast True (lit ''Execution Error'') (Some e))\<rparr>
       \<and> (case answers (afterRun cur (fst (handleRunCode exec uuidv4 (Some state) (Some exam) i w)))
                 (q_id (qs ! i)) of
            None \<Rightarrow> False
          | Some a' \<Rightarrow> ans_actualOutput a' = Some e \<and> ans_isCorrect a' = Some False
                        \<and> status a' = statusOf cur (q_id (qs ! i)))"
proof -
  have rep: "reportRun (qs ! i) result
           = \<lparr>dispatched = Some (SET_RUN_RESULT (q_id (qs ! i)) e False),
              toast = Some (Toast True (lit ''Execution Error'') (Some e))\<rparr>"
    using assms(6-8) by (simp add: reportRun_def truthy_def orElse_def)
  have eff: "fst (handleRunCode exec uuidv4 (Some state) (Some exam) i w)
           = \<lparr>dispatched = Some (SET_RUN_RESULT (q_id (qs ! i)) e False),
              toast = Some (Toast True (lit ''Execution Error'') (Some e))\<rparr>"
    using assms(1-5) by (auto simp: handleRunCode_def rep)
  have st: "case answers (afterRun cur \<lparr>dispatched = Some (SET_RUN_RESULT (q_id (qs ! i)) e False),
              toast = Some (Toast True (lit ''Execution Error'') (Some e))\<rparr>) (q_id (qs ! i)) of
            None \<Rightarrow> False
          | Some a' \<Rightarrow> ans_actualOutput a' = Some e \<and> ans_isCorrect a' = Some False
                        \<and> status a' = statusOf cur (q_id (qs ! i))"
    by (simp add: afterRun_def statusOf_def newAnswer_def split: option.split)
  from eff st show ?thesis by simp
qed

theorem handleRunCode_error_witness:
  "isCorrect (hd (results (fst (executeCodeFlow scripted
      \<lparr>language = Python, sourceCode = lit ''print(input())'',
       testCases = [\<lparr>tc_id = lit ''t3'', tc_input = lit ''1'', tc_expectedOutput = lit ''1''\<rparr>]\<rparr>
      warnScript))))
   \<and> dispatched (fst (handleRunCode (executeCode scripted) fixedUuid (Some demoState)
                        (Some demoExam) 0 warnScript))
       = Some (SET_RUN_RESULT (lit ''q1'') (lit ''warning: unused variable'') False)
   \<and> (case answers (afterRun demoState
                        (fst (handleRunCode (executeCode scripted) fixedUuid (Some demoState)
                                (Some demoExam) 0 warnScript)))
                (lit ''q1'') of
         None \<Rightarrow> False
       | Some a' \<Rightarrow> ans_isCorrect a' = Some False)"
proof -
  let ?inp = "\<lparr>language = Python, sourceCode = lit ''print(input())'',
       testCases = [\<lparr>tc_id = lit ''t3'', tc_input = lit ''1'', tc_expectedOutput = lit ''1''\<rparr>]\<rparr>"
  let ?r = "\<lparr>tr_id = None, input = lit ''1'', expectedOutput = lit ''1'',
             actualOutput = lit ''1'', isCorrect = True,
             error = Some (lit ''warning: unused variable'')\<rparr>"
  have flow: "executeCodeFlow scripted ?inp warnScript
              = (\<lparr>results = [?r], totalPassed = 1, totalCases = 1\<rparr>, [])"
    by (simp add: executeCodeFlow_def warnScript_def scripted_def okResponse_def pistonRequest_def
                  orElse_def orUndefined_def trim_def lit_def isWhiteSpace_def Let_def)
  have h1: "questions demoExam = Some [demoQuestion]"
    by (simp add: demoExam_def)
  have h2: "0 < length [demoQuestion]" by simp
  have h3: "answers demoState (q_id ([demoQuestion] ! 0)) = Some demoAnswer"
    by (simp add: demoState_def demoQuestion_def)
  have h4: "runCases fixedUuid ([demoQuestion] ! 0) warnScript
            = ([\<lparr>tc_id = lit ''t3'', tc_input = lit ''1'', tc_expectedOutput = lit ''1''\<rparr>],
               warnScript)"
    by (simp add: runCases_def demoQuestion_def)
  have h5: "executeCode scripted
              \<lparr>language = st_language demoState,
               sourceCode = orElse (ans_sourceCode demoAnswer) [],
               testCases = [\<lparr>tc_id = lit ''t3'', tc_input = lit ''1'',
                             tc_expectedOutput = lit ''1''\<rparr>]\<rparr> warnScript
            = (Inr \<lparr>results = [?r], totalPassed = 1, totalCases = 1\<rparr>, [])"
    using flow
    by (simp add: executeCode_def demoState_def demoAnswer_def newAnswer_def orElse_def lit_def)
  have h6: "results \<lparr>results = [?r], totalPassed = 1, totalCases = 1\<rparr> = ?r # []" by simp
  have h7: "error ?r = Some (lit ''warning: unused variable'')" by simp
  have h8: "lit ''warning: unused variable'' \<noteq> []" by (simp add: lit_def)
  have q: "q_id demoQuestion = lit ''q1''"
    by (simp add: demoQuestion_def)
  show ?thesis
    using handleRunCode_error [where exec = "executeCode scripted" and cur = demoState,
                               OF h1 h2 h3 h4 h5 h6 h7 h8] flow
    by (simp add: q split: option.splits)
qed

section \<open>Rounding\<close>

lemma powi_pos: "0 < (2::rat) powi k"
  by (simp add: zero_less_power_int)

lemma powi_mono: "a \<le> b \<Longrightarrow> (2::rat) powi a \<le> 2 powi b"
  by (rule power_int_increasing) simp_all

lemma powi_strict_mono: "a < b \<Longrightarrow> (2::rat) powi a < 2 powi b"
  by (rule power_int_strict_increasing) simp_all

lemma bitlen_rat_bounds:
  assumes "0 < a"
  shows "(2::rat) powi (bitlen a - 1) \<le> of_int a" and "of_int a < (2::rat) powi bitlen a"
proof -
  from assms have b: "2 ^ nat (bitlen a - 1) \<le> a" "a < 2 ^ nat (bitlen a)"
    using bitlen_bounds [of a] by simp_all
  have pos: "1 \<le> bitlen a"
    using assms by (simp add: bitlen_alt_def)
  have "(2::rat) powi (bitlen a - 1) = of_int (2 ^ nat (bitlen a - 1))"
    using pos by (simp add: power_int_def)
  also have "\<dots> \<le> of_int a"
    using b(1) by (simp only: of_int_le_iff)
  finally show "(2::rat) powi (bitlen a - 1) \<le> of_int a" .
  have "(of_int a :: rat) < of_int (2 ^ nat (bitlen a))"
    using b(2) by (simp only: of_int_less_iff)
  also have "\<dots> = (2::rat) powi bitlen a"
    using pos by (simp add: power_int_def)
  finally show "of_int a < (2::rat) powi bitlen a" .
qed

lemma expo_bounds:
  assumes "0 < x"
  shows "(2::rat) powi expo x \<le> x" and "x < (2::rat) powi (expo x + 1)"
proof -
  obtain a b where q: "quotient_of x = (a, b)" by (cases "quotient_of x")
  then have b: "0 < b" and x: "x = of_int a / of_int b"
    by (simp_all add: quotient_of_denom_pos quotient_of_div)
  have a: "0 < a"
    using assms b x by (simp add: zero_less_divide_iff)
  have rb: "0 < (of_int b :: rat)" using b by simp
  note A = bitlen_rat_bounds [OF a] and B = bitlen_rat_bounds [OF b]
  have lo: "(2::rat) powi (bitlen a - bitlen b - 1) \<le> x"
  proof -
    have "(2::rat) powi (bitlen a - bitlen b - 1) * of_int b
            \<le> (2::rat) powi (bitlen a - bitlen b - 1) * 2 powi bitlen b"
      using B(2) powi_pos [of "bitlen a - bitlen b - 1"] by simp
    also have "\<dots> = (2::rat) powi (bitlen a - 1)"
      by (simp add: power_int_add [symmetric])
    also have "\<dots> \<le> of_int a" by (rule A(1))
    finally show ?thesis
      using rb by (simp add: x pos_le_divide_eq)
  qed
  have hi: "x < (2::rat) powi (bitlen a - bitlen b + 1)"
  proof -
    have "of_int a < (2::rat) powi bitlen a" by (rule A(2))
    also have "\<dots> = (2::rat) powi (bitlen a - bitlen b + 1) * 2 powi (bitlen b - 1)"
      by (simp add: power_int_add [symmetric])
    also have "\<dots> \<le> (2::rat) powi (bitlen a - bitlen b + 1) * of_int b"
      using B(1) powi_pos [of "bitlen a - bitlen b + 1"] by simp
    finally show ?thesis
      using rb by (simp add: x pos_divide_less_eq)
  qed
  show "(2::rat) powi expo x \<le> x"
    using lo by (simp add: expo_def q)
  show "x < (2::rat) powi (expo x + 1)"
    using hi by (auto simp: expo_def q not_le)
qed

lemma expo_unique:
  assumes "(2::rat) powi k \<le> x" and "x < (2::rat) powi (k + 1)"
  shows "expo x = k"
proof -
  have pos: "0 < x"
    using assms(1) powi_pos [of k] by linarith
  note E = expo_bounds [OF pos]
  have "\<not> expo x < k"
  proof
    assume "expo x < k"
    then have "(2::rat) powi (expo x + 1) \<le> 2 powi k" by (intro powi_mono) simp
    with E(2) assms(1) show False by simp
  qed
  moreover have "\<not> k < expo x"
  proof
    assume "k < expo x"
    then have "(2::rat) powi (k + 1) \<le> 2 powi expo x" by (intro powi_mono) simp
    with E(1) assms(2) show False by simp
  qed
  ultimately show ?thesis by simp
qed

lemma roundHalfEven_int [simp]: "roundHalfEven (of_int n) = n"
  by (simp add: roundHalfEven_def)

lemma roundHalfEven_lower: "of_int a \<le> m \<Longrightarrow> a \<le> roundHalfEven m"
proof -
  assume "of_int a \<le> m"
  then have "a \<le> \<lfloor>m\<rfloor>" by (simp add: le_floor_iff)
  then show ?thesis by (simp add: roundHalfEven_def)
qed

lemma roundHalfEven_upper: "m \<le> of_int b \<Longrightarrow> roundHalfEven m \<le> b"
proof -
  assume m: "m \<le> of_int b"
  show ?thesis
  proof (cases "m = of_int b")
    case True
    then show ?thesis by simp
  next
    case False
    with m have "m < of_int b" by simp
    then have "\<lfloor>m\<rfloor> < b" by (simp add: floor_less_iff)
    then show ?thesis by (auto simp: roundHalfEven_def)
  qed
qed


lemma powi_scale: "(2::rat) ^ k * 2 powi q = 2 powi (q + int k)"
  by (simp add: power_int_add)

lemma quantum_eq:
  assumes "(2::rat) powi e \<le> y" and "y < (2::rat) powi (e + 1)"
  shows "quantum y = max e (- 1022) - 52"
  using expo_unique [OF assms] by (simp add: quantum_def)

lemma quantum_small:
  assumes "0 < y" and "y < (2::rat) powi (- 1022)"
  shows "quantum y = - 1074"
proof -
  have "\<not> - 1022 \<le> expo y"
  proof
    assume "- 1022 \<le> expo y"
    then have "(2::rat) powi (- 1022) \<le> 2 powi expo y" by (rule powi_mono)
    with expo_bounds(1) [OF assms(1)] assms(2) show False by linarith
  qed
  then show ?thesis by (simp add: quantum_def)
qed

lemma nearest_multiple:
  assumes "y = of_int k * (2::rat) powi quantum y"
  shows "nearest y = y"
proof -
  have "y / (2::rat) powi quantum y = of_int k"
    using powi_pos [of "quantum y"] by (subst assms) simp
  then show ?thesis
    using assms by (simp add: nearest_def)
qed

lemma nearest_nonneg: "0 < x \<Longrightarrow> 0 \<le> nearest x"
proof -
  assume "0 < x"
  then have "of_int 0 \<le> x / (2::rat) powi quantum x"
    using powi_pos [of "quantum x"] by simp
  then have "0 \<le> roundHalfEven (x / (2::rat) powi quantum x)"
    by (rule roundHalfEven_lower)
  then show ?thesis
    using powi_pos [of "quantum x"] by (simp add: nearest_def)
qed

lemma nearest_fix:
  assumes x: "0 < x" and y: "0 < nearest x"
  shows "nearest (nearest x) = nearest x"
proof -
  define q where "q = quantum x"
  define n where "n = roundHalfEven (x / (2::rat) powi q)"
  have ny: "nearest x = of_int n * (2::rat) powi q"
    by (simp add: nearest_def n_def q_def)
  have qpos: "0 < (2::rat) powi q" by (rule powi_pos)
  have npos: "0 < n"
    using y qpos by (simp add: ny zero_less_mult_iff)
  note E = expo_bounds [OF x]
  show ?thesis
  proof (cases "- 1022 \<le> expo x")
    case True
    then have q: "q = expo x - 52" by (simp add: q_def quantum_def)
    have "(2::rat) powi 52 * 2 powi q \<le> x" and "x < (2::rat) powi 53 * 2 powi q"
      using E by (simp_all add: q power_int_add [symmetric] add.commute del: power_int_numeral)
    then have "of_int (2 ^ 52) \<le> x / (2::rat) powi q" and "x / (2::rat) powi q \<le> of_int (2 ^ 53)"
      using qpos by (simp_all add: pos_le_divide_eq pos_divide_le_eq)
    then have lo: "2 ^ 52 \<le> n" and hi: "n \<le> 2 ^ 53"
      unfolding n_def by (simp_all only: roundHalfEven_lower roundHalfEven_upper)
    show ?thesis
    proof (cases "n = 2 ^ 53")
      case True
      then have "nearest x = (2::rat) ^ 53 * 2 powi q"
        by (simp only: ny of_int_power of_int_numeral)
      also have "\<dots> = (2::rat) powi (q + int 53)"
        by (rule powi_scale)
      also have "q + int 53 = expo x + 1"
        by (simp add: q)
      finally have v: "nearest x = (2::rat) powi (expo x + 1)" .
      have "quantum (nearest x) = max (expo x + 1) (- 1022) - 52"
        by (rule quantum_eq) (simp_all add: v powi_strict_mono)
      then have Q: "quantum (nearest x) = q + 1"
        using \<open>- 1022 \<le> expo x\<close> by (simp add: q)
      have "(of_int (2 ^ 52) :: rat) * 2 powi (q + 1) = (2::rat) ^ 52 * 2 powi (q + 1)"
        by (simp only: of_int_power of_int_numeral)
      also have "\<dots> = (2::rat) powi (q + 1 + int 52)"
        by (rule powi_scale)
      also have "q + 1 + int 52 = expo x + 1"
        by (simp add: q)
      finally have s: "(of_int (2 ^ 52) :: rat) * 2 powi (q + 1) = 2 powi (expo x + 1)" .
      have "nearest x = of_int (2 ^ 52) * (2::rat) powi quantum (nearest x)"
        unfolding Q s by (rule v)
      then show ?thesis by (rule nearest_multiple)
    next
      case False
      with hi have "n < 2 ^ 53" by simp
      then have "(of_int n :: rat) < of_int (2 ^ 53)" by (simp only: of_int_less_iff)
      then have u: "nearest x < (2::rat) powi 53 * 2 powi q"
        using qpos by (simp add: ny)
      have "(of_int (2 ^ 52) :: rat) \<le> of_int n"
        using lo by (simp only: of_int_le_iff)
      then have l: "(2::rat) powi 52 * 2 powi q \<le> nearest x"
        using qpos by (simp add: ny)
      have "quantum (nearest x) = max (expo x) (- 1022) - 52"
        by (rule quantum_eq)
           (use l u in \<open>simp_all add: q power_int_add [symmetric] add.commute
                              del: power_int_numeral\<close>)
      then have "quantum (nearest x) = q"
        by (simp add: q_def quantum_def)
      then have "nearest x = of_int n * (2::rat) powi quantum (nearest x)"
        by (simp add: ny)
      then show ?thesis by (rule nearest_multiple)
    qed
  next
    case False
    then have q: "q = - 1074" by (simp add: q_def quantum_def)
    from False have "expo x + 1 \<le> - 1022" by simp
    then have "(2::rat) powi (expo x + 1) \<le> 2 powi (- 1022)" by (rule powi_mono)
    with E(2) have "x < (2::rat) powi (- 1022)" by linarith
    also have sc: "(2::rat) powi (- 1022) = (2::rat) ^ 52 * 2 powi q"
      using powi_scale [of 52 q] by (simp add: q)
    finally have "x / (2::rat) powi q < (2::rat) ^ 52"
      using qpos by (simp add: pos_divide_less_eq)
    then have "x / (2::rat) powi q \<le> of_int (2 ^ 52)"
      by simp
    then have hi: "n \<le> 2 ^ 52"
      unfolding n_def by (rule roundHalfEven_upper)
    show ?thesis
    proof (cases "n = 2 ^ 52")
      case True
      then have "nearest x = (2::rat) ^ 52 * 2 powi q"
        by (simp only: ny of_int_power of_int_numeral)
      then have v: "nearest x = (2::rat) powi (- 1022)"
        by (simp only: sc)
      have "quantum (nearest x) = max (- 1022) (- 1022) - 52"
        by (rule quantum_eq) (simp_all add: v powi_strict_mono)
      then have "quantum (nearest x) = q" by (simp add: q)
      then have "nearest x = of_int n * (2::rat) powi quantum (nearest x)"
        by (simp add: ny)
      then show ?thesis by (rule nearest_multiple)
    next
      case False
      with hi have "n < 2 ^ 52" by simp
      then have "(of_int n :: rat) < of_int (2 ^ 52)" by (simp only: of_int_less_iff)
      then have "of_int n * (2::rat) powi q < (2::rat) ^ 52 * 2 powi q"
        using qpos by simp
      then have "nearest x < (2::rat) powi (- 1022)"
        by (simp only: ny sc)
      then have "quantum (nearest x) = - 1074"
        using y by (intro quantum_small)
      then have "nearest x = of_int n * (2::rat) powi quantum (nearest x)"
        by (simp add: ny q)
      then show ?thesis by (rule nearest_multiple)
    qed
  qed
qed

lemma round64_idem:
  assumes "round64 x = Finite z"
  shows "round64 z = Finite z"
proof (cases "x = 0")
  case True
  with assms show ?thesis by (simp add: round64_def)
next
  case False
  then have ax: "0 < \<bar>x\<bar>" by simp
  from assms False have fin: "\<not> (2::rat) powi 1024 \<le> nearest \<bar>x\<bar>"
    and z: "z = sgn x * nearest \<bar>x\<bar>"
    by (auto simp: round64_def split: if_splits)
  show ?thesis
  proof (cases "nearest \<bar>x\<bar> = 0")
    case True
    then show ?thesis by (simp add: z round64_def)
  next
    case nz: False
    with nearest_nonneg [OF ax] have pos: "0 < nearest \<bar>x\<bar>" by simp
    have az: "\<bar>z\<bar> = nearest \<bar>x\<bar>"
      using pos False by (simp add: z abs_mult)
    have sz: "sgn z = sgn x"
      using pos False by (simp add: z sgn_mult)
    have nz': "nearest \<bar>z\<bar> = nearest \<bar>x\<bar>"
      by (simp add: az nearest_fix [OF ax pos])
    have "z \<noteq> 0" using az pos by auto
    then have "round64 z = Finite (sgn z * nearest \<bar>z\<bar>)"
      using fin by (simp only: round64_def nz' if_False)
    also have "\<dots> = Finite (sgn x * nearest \<bar>x\<bar>)"
      by (simp only: sz nz')
    also have "\<dots> = Finite z"
      by (simp only: z [symmetric])
    finally show ?thesis .
  qed
qed


lemma representable_round64: "representable (round64 x)"
  by (cases "round64 x") (simp_all add: representable_def round64_idem)

lemma representable_jsadd: "representable (jsadd a b)"
  by (cases a; cases b) (simp_all add: representable_round64, simp_all add: representable_def)

lemma round64_zero: "round64 0 = Finite 0"
  by (simp add: round64_def)

lemma jsadd_zero: "representable t \<Longrightarrow> jsadd t (Finite 0) = t"
  by (cases t) (simp_all add: representable_def)

lemma round64_not_NaN: "round64 x \<noteq> NaN"
  by (simp add: round64_def)

lemma jsmul_100_not_NaN: "v \<noteq> NaN \<Longrightarrow> jsmul v (Finite 100) \<noteq> NaN"
  by (cases v) (simp_all add: round64_not_NaN infinity_def)

lemma round64_one: "round64 1 = Finite 1"
  by code_simp

lemma round64_hundred: "round64 100 = Finite 100"
  by code_simp

section \<open>The grading loop, characterised\<close>

lemma gradeLoop_Cons:
  "gradeLoop exec uuidv4 state (question # rest) fa tm w =
     (case gradeQuestion exec uuidv4 state question w of
        ((a, added), w') \<Rightarrow>
          gradeLoop exec uuidv4 state rest (fa @ [a])
            (case added of None \<Rightarrow> tm | Some m \<Rightarrow> jsadd tm m) w')"
  by (cases "exec (submitInput state (the (sourceOf state question)) question) w")
     (simp add: gradeQuestion_def sourceOf_def split: option.split prod.split sum.split)

lemma gradeLoop_acc:
  "fst (fst (gradeLoop exec uuidv4 state qs fa tm w))
     = fa @ fst (fst (gradeLoop exec uuidv4 state qs [] (Finite 0) w))
   \<and> snd (gradeLoop exec uuidv4 state qs fa tm w)
     = snd (gradeLoop exec uuidv4 state qs [] (Finite 0) w)"
proof (induction qs arbitrary: fa tm w)
  case Nil
  show ?case by simp
next
  case (Cons question rest)
  obtain a added w' where g: "gradeQuestion exec uuidv4 state question w = ((a, added), w')"
    by (metis surj_pair)
  show ?case
    using Cons.IH [of "fa @ [a]" "case added of None \<Rightarrow> tm | Some m \<Rightarrow> jsadd tm m" w']
          Cons.IH [of "[a]" "case added of None \<Rightarrow> Finite 0 | Some m \<Rightarrow> jsadd (Finite 0) m" w']
    by (simp only: gradeLoop_Cons g prod.case) simp
qed

lemma gradeLoop_append:
  "gradeLoop exec uuidv4 state (xs @ ys) fa tm w =
     (case gradeLoop exec uuidv4 state xs fa tm w of
        ((fa', tm'), w') \<Rightarrow> gradeLoop exec uuidv4 state ys fa' tm' w')"
proof (induction xs arbitrary: fa tm w)
  case Nil
  show ?case by simp
next
  case (Cons question rest)
  show ?case
    by (simp only: append_Cons gradeLoop_Cons Cons.IH split: prod.split) simp
qed

lemma length_gradeLoop:
  "length (fst (fst (gradeLoop exec uuidv4 state qs fa tm w))) = length fa + length qs"
proof (induction qs arbitrary: fa tm w)
  case Nil
  show ?case by simp
next
  case (Cons question rest)
  show ?case
    by (simp only: gradeLoop_Cons Cons.IH split: prod.split) simp
qed

lemma gradeQuestion_marks:
  "gradeQuestion exec uuidv4 state question w = ((a, added), w') \<Longrightarrow>
   marks a = Some (case added of None \<Rightarrow> Finite 0 | Some m \<Rightarrow> m)"
  by (auto simp: gradeQuestion_def notAnswered_def gradedAnswer_def failedAnswer_def
           split: option.splits if_splits prod.splits sum.splits)

lemma gradeLoop_total:
  "representable tm \<Longrightarrow>
   snd (fst (gradeLoop exec uuidv4 state qs fa tm w))
     = foldl jsadd tm (map marksOf (fst (fst (gradeLoop exec uuidv4 state qs [] (Finite 0) w))))
   \<and> list_all (\<lambda>a. marks a \<noteq> None) (fst (fst (gradeLoop exec uuidv4 state qs [] (Finite 0) w)))"
proof (induction qs arbitrary: fa tm w)
  case Nil
  show ?case by simp
next
  case (Cons question rest)
  obtain a added w' where g: "gradeQuestion exec uuidv4 state question w = ((a, added), w')"
    by (metis surj_pair)
  let ?tm = "case added of None \<Rightarrow> tm | Some m \<Rightarrow> jsadd tm m"
  have m: "marks a = Some (case added of None \<Rightarrow> Finite 0 | Some m \<Rightarrow> m)"
    using g by (rule gradeQuestion_marks)
  have r: "representable ?tm"
    using Cons.prems by (cases added) (simp_all add: representable_jsadd)
  have t: "jsadd tm (marksOf a) = ?tm"
    using Cons.prems m by (cases added) (simp_all add: marksOf_def jsadd_zero)
  have new: "fst (fst (gradeLoop exec uuidv4 state (question # rest) [] (Finite 0) w))
             = a # fst (fst (gradeLoop exec uuidv4 state rest [] (Finite 0) w'))"
    using gradeLoop_acc [of exec uuidv4 state rest "[a]" _ w']
    by (simp only: gradeLoop_Cons g prod.case) simp
  have tot: "snd (fst (gradeLoop exec uuidv4 state (question # rest) fa tm w))
             = snd (fst (gradeLoop exec uuidv4 state rest (fa @ [a]) ?tm w'))"
    by (simp only: gradeLoop_Cons g prod.case)
  show ?case
    using Cons.IH [OF r, of "fa @ [a]" w'] m
    by (simp only: new tot) (simp add: t)
qed

lemma gradeLoop_nth:
  "fst (fst (gradeLoop exec uuidv4 state (pre @ q # post) [] (Finite 0) w)) ! length pre
     = fst (fst (gradeQuestion exec uuidv4 state q
                   (snd (gradeLoop exec uuidv4 state pre [] (Finite 0) w))))"
proof -
  obtain fa tm w1 where p: "gradeLoop exec uuidv4 state pre [] (Finite 0) w = ((fa, tm), w1)"
    by (metis surj_pair)
  obtain a added w2 where g: "gradeQuestion exec uuidv4 state q w1 = ((a, added), w2)"
    by (metis surj_pair)
  have len: "length fa = length pre"
    using length_gradeLoop [of exec uuidv4 state pre "[]" "Finite 0" w] by (simp add: p)
  have "gradeLoop exec uuidv4 state (pre @ q # post) [] (Finite 0) w
          = gradeLoop exec uuidv4 state post (fa @ [a])
              (case added of None \<Rightarrow> tm | Some m \<Rightarrow> jsadd tm m) w2"
    by (simp only: gradeLoop_append p prod.case gradeLoop_Cons g)
  then have "fst (fst (gradeLoop exec uuidv4 state (pre @ q # post) [] (Finite 0) w))
          = (fa @ [a]) @ fst (fst (gradeLoop exec uuidv4 state post [] (Finite 0) w2))"
    using gradeLoop_acc [of exec uuidv4 state post "fa @ [a]" _ w2] by simp
  then show ?thesis
    using len by (simp add: p g nth_append)
qed

lemma gradeLoop_world_append:
  "snd (gradeLoop exec uuidv4 state (pre @ [q]) [] (Finite 0) w)
     = snd (gradeQuestion exec uuidv4 state q
              (snd (gradeLoop exec uuidv4 state pre [] (Finite 0) w)))"
proof -
  obtain fa tm w1 where p: "gradeLoop exec uuidv4 state pre [] (Finite 0) w = ((fa, tm), w1)"
    by (metis surj_pair)
  obtain a added w2 where g: "gradeQuestion exec uuidv4 state q w1 = ((a, added), w2)"
    by (metis surj_pair)
  have "gradeLoop exec uuidv4 state (pre @ [q]) [] (Finite 0) w
          = gradeLoop exec uuidv4 state [] (fa @ [a])
              (case added of None \<Rightarrow> tm | Some m \<Rightarrow> jsadd tm m) w2"
    by (simp only: gradeLoop_append p prod.case gradeLoop_Cons g)
  then show ?thesis by (simp add: p g)
qed

lemma gradeQuestion_unattempted:
  "\<not> truthy (sourceOf state q) \<Longrightarrow>
   gradeQuestion exec uuidv4 state q w = ((notAnswered q, None), w)"
  by (simp add: gradeQuestion_def sourceOf_def truthy_def split: option.splits)

lemma callsFor_unattempted: "\<not> truthy (sourceOf state q) \<Longrightarrow> callsFor state q = []"
  by (simp add: callsFor_def truthy_def split: option.splits)

lemma failedResults_unlogged:
  "failedResults (unlogged uuidv4) tcs (calls, w)
     = (fst (failedResults uuidv4 tcs w), (calls, snd (failedResults uuidv4 tcs w)))"
  by (induction tcs arbitrary: w) (simp_all add: unlogged_def split: prod.split)

lemma gradeQuestion_logged:
  "gradeQuestion (logged exec) (unlogged uuidv4) state q (calls, w)
     = (fst (gradeQuestion exec uuidv4 state q w),
        (calls @ callsFor state q, snd (gradeQuestion exec uuidv4 state q w)))"
proof (cases "truthy (sourceOf state q)")
  case False
  then show ?thesis
    by (simp add: gradeQuestion_unattempted callsFor_unattempted)
next
  case True
  then obtain a src where a: "answers state (q_id q) = Some a"
    and s: "ans_sourceCode a = Some src" and n: "src \<noteq> []"
    by (auto simp: truthy_def sourceOf_def split: option.splits)
  obtain r w1 where e: "exec (submitInput state src q) w = (r, w1)"
    by (metis surj_pair)
  have c: "callsFor state q = [submitInput state src q]"
    by (simp add: callsFor_def sourceOf_def a s n)
  show ?thesis
  proof (cases r)
    case (Inl err)
    then show ?thesis
      by (simp add: gradeQuestion_def a s n e c logged_apply failedResults_unlogged
               split: prod.split)
  next
    case (Inr result)
    then show ?thesis
      by (simp add: gradeQuestion_def a s n e c logged_apply)
  qed
qed

lemma gradeLoop_logged:
  "gradeLoop (logged exec) (unlogged uuidv4) state qs fa tm (calls, w)
     = (fst (gradeLoop exec uuidv4 state qs fa tm w),
        (calls @ concat (map (callsFor state) qs), snd (gradeLoop exec uuidv4 state qs fa tm w)))"
proof (induction qs arbitrary: fa tm w calls)
  case Nil
  show ?case by simp
next
  case (Cons question rest)
  show ?case
    by (simp only: gradeLoop_Cons gradeQuestion_logged split: prod.split)
       (simp add: Cons.IH)
qed

lemma callsFor_source: "c \<in> set (callsFor state q) \<Longrightarrow> sourceCode c \<noteq> []"
  by (auto simp: callsFor_def submitInput_def split: option.splits if_splits)

lemma handleSubmitExam_Some:
  assumes "questions examData = Some qs"
  shows "handleSubmitExam exec uuidv4 state uid eid examData auto w =
     (Inr \<lparr>studentId = uid, examId = eid, examTitle = title examData,
           sub_answers = fst (fst (gradeLoop exec uuidv4 state qs [] (Finite 0) w)),
           score = (if qs = [] then Finite 0
                    else jsdiv (snd (fst (gradeLoop exec uuidv4 state qs [] (Finite 0) w)))
                           (ofCount (length qs))),
           sub_language = st_language state,
           sub_status = (case auto of None \<Rightarrow> lit ''graded'' | Some d \<Rightarrow> lit ''suspicious''),
           autoSubmitted = map_option fst auto,
           exitCount = map_option snd auto\<rparr>,
      snd (gradeLoop exec uuidv4 state qs [] (Finite 0) w))"
  using assms by (simp add: handleSubmitExam_def split: prod.split)

lemma handleSubmitExam_None:
  assumes "questions examData = None"
  shows "handleSubmitExam exec uuidv4 state uid eid examData auto w =
           (Inl (JsError (Some (typeErrorMessage ''length''))), w)"
  using assms by (simp add: handleSubmitExam_def)

lemma handleSubmitExam_log:
  assumes "questions examData = Some qs"
  shows "fst (snd (handleSubmitExam (logged exec) (unlogged uuidv4) state uid eid examData auto
                     ([], w)))
         = concat (map (callsFor state) qs)"
  by (simp add: handleSubmitExam_Some [OF assms] gradeLoop_logged)

lemmas submit_defs = submitState_def mkAnswer_def mkQuestion_def oneCase_def newAnswer_def
  scoreExam_def failExam_def wrongSummary_def failScript2_def scoreScript_def

section \<open>Scores\<close>

text \<open>
  C7, as the code has it. The marks of a question are 0 for a summary with no test cases
  and otherwise the double \<open>(totalPassed / totalCases) * 100\<close>, the quotient rounded and
  then the product rounded: never NaN, exactly 100 when every case passed and exactly 0
  when none did. A question that is executed gets the marks of its summary. For an exam
  with a list of questions the submission has one answer per question, each with marks,
  and its score is 0 for the empty list and otherwise the double quotient of the double
  sum of the marks of all answers, added in question order from 0, by the number of
  questions.
\<close>

theorem handleSubmitExam_score:
  "(totalCases result = 0 \<longrightarrow> marksForQuestion result = Finite 0)
   \<and> (0 < totalCases result \<longrightarrow>
        marksForQuestion result
          = jsmul (jsdiv (Finite (of_nat (totalPassed result)))
                         (Finite (of_nat (totalCases result)))) (Finite 100)
        \<and> jsdiv (Finite (of_nat (totalPassed result))) (Finite (of_nat (totalCases result)))
          = round64 (of_nat (totalPassed result) / of_nat (totalCases result))
        \<and> marksForQuestion result \<noteq> NaN)
   \<and> (0 < totalCases result \<and> totalPassed result = totalCases result \<longrightarrow>
        marksForQuestion result = Finite 100)
   \<and> (0 < totalCases result \<and> totalPassed result = 0 \<longrightarrow>
        marksForQuestion result = Finite 0)
   \<and> (questions examData = Some qs \<longrightarrow>
        (\<exists>p w'. handleSubmitExam exec gen state uid eid examData auto w = (Inr p, w')
           \<and> length (sub_answers p) = length qs
           \<and> list_all (\<lambda>a. marks a \<noteq> None) (sub_answers p)
           \<and> score p = (if qs = [] then Finite 0
                        else jsdiv (foldl jsadd (Finite 0) (map marksOf (sub_answers p)))
                               (Finite (of_nat (length qs))))))
   \<and> (questions examData = Some (pre @ q # post) \<and> sourceOf state q = Some src \<and> src \<noteq> []
        \<and> fst (exec (submitInput state src q)
                 (snd (gradeLoop exec gen state pre [] (Finite 0) w))) = Inr result \<longrightarrow>
        (\<exists>p w'. handleSubmitExam exec gen state uid eid examData auto w = (Inr p, w')
           \<and> marks (sub_answers p ! length pre) = Some (marksForQuestion result)))"
proof -
  let ?p = "of_nat (totalPassed result) :: rat" and ?c = "of_nat (totalCases result) :: rat"
  have 1: "totalCases result = 0 \<longrightarrow> marksForQuestion result = Finite 0"
    by (simp add: marksForQuestion_def)
  have d: "jsdiv (Finite ?p) (Finite ?c) = round64 (?p / ?c)" if "0 < totalCases result"
    using that by simp
  have 2: "marksForQuestion result = jsmul (jsdiv (Finite ?p) (Finite ?c)) (Finite 100)
           \<and> jsdiv (Finite ?p) (Finite ?c) = round64 (?p / ?c)
           \<and> marksForQuestion result \<noteq> NaN"
    if "0 < totalCases result"
  proof -
    have m: "marksForQuestion result = jsmul (jsdiv (Finite ?p) (Finite ?c)) (Finite 100)"
      using that by (simp add: marksForQuestion_def ofCount_def del: jsdiv.simps jsmul.simps)
    have "jsmul (round64 (?p / ?c)) (Finite 100) \<noteq> NaN"
      by (rule jsmul_100_not_NaN) (rule round64_not_NaN)
    then show ?thesis
      by (simp only: m d [OF that]) simp
  qed
  have 3: "marksForQuestion result = Finite 100"
    if "0 < totalCases result \<and> totalPassed result = totalCases result"
  proof -
    from that have "?p / ?c = 1" by simp
    then show ?thesis
      using that 2 by (simp add: round64_one round64_hundred)
  qed
  have 4: "marksForQuestion result = Finite 0"
    if "0 < totalCases result \<and> totalPassed result = 0"
    using that 2 by (simp add: round64_zero)
  have 5: "\<exists>p w'. handleSubmitExam exec gen state uid eid examData auto w = (Inr p, w')
           \<and> length (sub_answers p) = length qs
           \<and> list_all (\<lambda>a. marks a \<noteq> None) (sub_answers p)
           \<and> score p = (if qs = [] then Finite 0
                        else jsdiv (foldl jsadd (Finite 0) (map marksOf (sub_answers p)))
                               (Finite (of_nat (length qs))))"
    if "questions examData = Some qs"
  proof -
    have r: "representable (Finite 0)"
      by (simp add: representable_def round64_zero)
    show ?thesis
      using gradeLoop_total [OF r, of exec gen state qs "[]" w]
            length_gradeLoop [of exec gen state qs "[]" "Finite 0" w]
      by (simp add: handleSubmitExam_Some [OF that] ofCount_def)
  qed
  have 6: "\<exists>p w'. handleSubmitExam exec gen state uid eid examData auto w = (Inr p, w')
           \<and> marks (sub_answers p ! length pre) = Some (marksForQuestion result)"
    if h: "questions examData = Some (pre @ q # post) \<and> sourceOf state q = Some src \<and> src \<noteq> []
        \<and> fst (exec (submitInput state src q)
                 (snd (gradeLoop exec gen state pre [] (Finite 0) w))) = Inr result"
  proof -
    let ?w1 = "snd (gradeLoop exec gen state pre [] (Finite 0) w)"
    from h have q: "questions examData = Some (pre @ q # post)" and n: "src \<noteq> []"
      by simp_all
    obtain a where a: "answers state (q_id q) = Some a" "ans_sourceCode a = Some src"
      using h by (auto simp: sourceOf_def split: option.splits)
    obtain w2 where "exec (submitInput state src q) ?w1 = (Inr result, w2)"
      using h by (metis prod.collapse)
    then have "fst (fst (gradeQuestion exec gen state q ?w1)) = gradedAnswer a q result"
      by (simp add: gradeQuestion_def a n)
    then show ?thesis
      by (simp add: handleSubmitExam_Some [OF q] gradeLoop_nth gradedAnswer_def)
  qed
  from 1 2 3 4 5 6 show ?thesis by blast
qed

section \<open>Questions that are not executed\<close>

text \<open>
  C6. A question for which the student has no answer, no source code or empty source code
  gets the answer \<open>notAnswered\<close>: marks 0, status \<open>'not-answered'\<close>, no test results.
  Its iteration leaves the world as it found it, whatever \<open>executeCode\<close> is; the calls of
  \<open>executeCode\<close> that the submission issues are those it issues for the exam without
  this question; and no call is ever issued with empty source code.
\<close>

theorem handleSubmitExam_unattempted:
  assumes "questions examData = Some (pre @ q # post)"
    and "\<not> truthy (sourceOf state q)"
  shows "(\<exists>p w'. handleSubmitExam exec gen state uid eid examData auto w = (Inr p, w')
            \<and> sub_answers p ! length pre = notAnswered q
            \<and> marks (sub_answers p ! length pre) = Some (Finite 0)
            \<and> status (sub_answers p ! length pre) = Some (lit ''not-answered'')
            \<and> testResults (sub_answers p ! length pre) = Some [])
       \<and> snd (gradeLoop exec gen state (pre @ [q]) [] (Finite 0) w)
           = snd (gradeLoop exec gen state pre [] (Finite 0) w)
       \<and> fst (snd (handleSubmitExam (logged exec) (unlogged gen) state uid eid examData auto
                      ([], w)))
           = fst (snd (handleSubmitExam (logged exec) (unlogged gen) state uid eid
                         (examData\<lparr>questions := Some (pre @ post)\<rparr>) auto ([], w)))
       \<and> (\<forall>c \<in> set (fst (snd (handleSubmitExam (logged exec) (unlogged gen) state uid eid
                                  examData auto ([], w)))).
             sourceCode c \<noteq> [])"
proof -
  have g: "gradeQuestion exec gen state q w0 = ((notAnswered q, None), w0)" for w0
    using assms(2) by (rule gradeQuestion_unattempted)
  have 1: "\<exists>p w'. handleSubmitExam exec gen state uid eid examData auto w = (Inr p, w')
            \<and> sub_answers p ! length pre = notAnswered q
            \<and> marks (sub_answers p ! length pre) = Some (Finite 0)
            \<and> status (sub_answers p ! length pre) = Some (lit ''not-answered'')
            \<and> testResults (sub_answers p ! length pre) = Some []"
    by (simp add: handleSubmitExam_Some [OF assms(1)] gradeLoop_nth g)
       (simp add: notAnswered_def)
  have 2: "snd (gradeLoop exec gen state (pre @ [q]) [] (Finite 0) w)
           = snd (gradeLoop exec gen state pre [] (Finite 0) w)"
    by (simp add: gradeLoop_world_append g)
  have q': "questions (examData\<lparr>questions := Some (pre @ post)\<rparr>) = Some (pre @ post)"
    by simp
  have 3: "fst (snd (handleSubmitExam (logged exec) (unlogged gen) state uid eid examData auto
                      ([], w)))
           = fst (snd (handleSubmitExam (logged exec) (unlogged gen) state uid eid
                         (examData\<lparr>questions := Some (pre @ post)\<rparr>) auto ([], w)))"
    using assms(2)
    by (simp add: handleSubmitExam_log [OF assms(1)] handleSubmitExam_log [OF q']
                  callsFor_unattempted)
  have 4: "\<forall>c \<in> set (fst (snd (handleSubmitExam (logged exec) (unlogged gen) state uid eid
                                  examData auto ([], w)))).
             sourceCode c \<noteq> []"
    by (auto simp: handleSubmitExam_log [OF assms(1)] dest: callsFor_source)
  from 1 2 3 4 show ?thesis by blast
qed

section \<open>A question whose execution raises\<close>

lemma fst_failedResults_Cons:
  "fst (failedResults gen (tc # tcs) w)
     = \<lparr>tr_id = Some (fst (gen w)), input = tc_input tc,
        expectedOutput = tc_expectedOutput tc,
        actualOutput = lit ''Execution Error on Submit'', isCorrect = False,
        error = Some (lit ''Submission execution failed'')\<rparr>
       # fst (failedResults gen tcs (snd (gen w)))"
  by (simp split: prod.split)

lemma failedResults_props:
  "length (fst (failedResults gen tcs w)) = length tcs
   \<and> map input (fst (failedResults gen tcs w)) = map tc_input tcs
   \<and> map expectedOutput (fst (failedResults gen tcs w)) = map tc_expectedOutput tcs
   \<and> list_all (\<lambda>r. actualOutput r = lit ''Execution Error on Submit'' \<and> \<not> isCorrect r
                   \<and> error r = Some (lit ''Submission execution failed''))
        (fst (failedResults gen tcs w))"
  by (induction tcs arbitrary: w)
     (simp_all add: fst_failedResults_Cons del: failedResults.simps(2))

text \<open>
  C5, as the code has it. When \<open>executeCode\<close> raises for a question with source code, the
  answer pushed is the stored answer with marks 0, the status \<open>'not-answered'\<close> and one
  fabricated result per test case of the question (none when it has no test cases), each
  incorrect, with \<open>Execution Error on Submit\<close> as \<open>actualOutput\<close> and
  \<open>Submission execution failed\<close> as \<open>error\<close>. \<open>'not-answered'\<close> is also the status of every
  question without source code, and a question that is executed keeps the status stored
  with its answer whatever its results: the status does not mark an execution failure.
\<close>

theorem handleSubmitExam_raises:
  "(questions examData = Some (pre @ q # post) \<and> answers state (q_id q) = Some a
      \<and> ans_sourceCode a = Some src \<and> src \<noteq> []
      \<and> fst (exec (submitInput state src q)
               (snd (gradeLoop exec gen state pre [] (Finite 0) w))) = Inl e \<longrightarrow>
      (\<exists>p w' trs. handleSubmitExam exec gen state uid eid examData auto w = (Inr p, w')
         \<and> sub_answers p ! length pre
             = a\<lparr>questionId := q_id q, questionText := Some (q_text q),
                 testResults := Some trs, status := Some (lit ''not-answered''),
                 marks := Some (Finite 0)\<rparr>
         \<and> marks (sub_answers p ! length pre) = Some (Finite 0)
         \<and> status (sub_answers p ! length pre) = Some (lit ''not-answered'')
         \<and> length trs = length (case q_testCases q of None \<Rightarrow> [] | Some tcs \<Rightarrow> tcs)
         \<and> map input trs
             = map tc_input (case q_testCases q of None \<Rightarrow> [] | Some tcs \<Rightarrow> tcs)
         \<and> map expectedOutput trs
             = map tc_expectedOutput (case q_testCases q of None \<Rightarrow> [] | Some tcs \<Rightarrow> tcs)
         \<and> list_all (\<lambda>r. actualOutput r = lit ''Execution Error on Submit'' \<and> \<not> isCorrect r
                         \<and> error r = Some (lit ''Submission execution failed'')) trs))
   \<and> (questions examData = Some (pre @ q # post) \<and> \<not> truthy (sourceOf state q) \<longrightarrow>
      (\<exists>p w'. handleSubmitExam exec gen state uid eid examData auto w = (Inr p, w')
         \<and> status (sub_answers p ! length pre) = Some (lit ''not-answered'')))
   \<and> (questions examData = Some (pre @ q # post) \<and> answers state (q_id q) = Some a
      \<and> ans_sourceCode a = Some src \<and> src \<noteq> []
      \<and> fst (exec (submitInput state src q)
               (snd (gradeLoop exec gen state pre [] (Finite 0) w))) = Inr result \<longrightarrow>
      (\<exists>p w'. handleSubmitExam exec gen state uid eid examData auto w = (Inr p, w')
         \<and> status (sub_answers p ! length pre) = status a))"
proof -
  let ?w1 = "snd (gradeLoop exec gen state pre [] (Finite 0) w)"
  let ?tcs = "case q_testCases q of None \<Rightarrow> [] | Some tcs \<Rightarrow> tcs"
  have 1: "\<exists>p w' trs. handleSubmitExam exec gen state uid eid examData auto w = (Inr p, w')
         \<and> sub_answers p ! length pre
             = a\<lparr>questionId := q_id q, questionText := Some (q_text q),
                 testResults := Some trs, status := Some (lit ''not-answered''),
                 marks := Some (Finite 0)\<rparr>
         \<and> marks (sub_answers p ! length pre) = Some (Finite 0)
         \<and> status (sub_answers p ! length pre) = Some (lit ''not-answered'')
         \<and> length trs = length ?tcs
         \<and> map input trs = map tc_input ?tcs
         \<and> map expectedOutput trs = map tc_expectedOutput ?tcs
         \<and> list_all (\<lambda>r. actualOutput r = lit ''Execution Error on Submit'' \<and> \<not> isCorrect r
                         \<and> error r = Some (lit ''Submission execution failed'')) trs"
    if h: "questions examData = Some (pre @ q # post) \<and> answers state (q_id q) = Some a
      \<and> ans_sourceCode a = Some src \<and> src \<noteq> []
      \<and> fst (exec (submitInput state src q) ?w1) = Inl e"
  proof -
    from h have qs: "questions examData = Some (pre @ q # post)"
      and a: "answers state (q_id q) = Some a" "ans_sourceCode a = Some src" and n: "src \<noteq> []"
      by simp_all
    obtain w2 where x: "exec (submitInput state src q) ?w1 = (Inl e, w2)"
      using h by (metis prod.collapse)
    let ?trs = "fst (failedResults gen ?tcs w2)"
    have tc: "testCases (submitInput state src q) = ?tcs"
      by (simp add: submitInput_def)
    have g: "fst (fst (gradeQuestion exec gen state q ?w1)) = failedAnswer a q ?trs"
      by (simp add: gradeQuestion_def a n x tc split: prod.split)
    have nth: "fst (fst (gradeLoop exec gen state (pre @ q # post) [] (Finite 0) w)) ! length pre
               = failedAnswer a q ?trs"
      by (simp add: gradeLoop_nth g)
    note props = failedResults_props [of gen ?tcs w2]
    show ?thesis
      apply (simp add: handleSubmitExam_Some [OF qs] nth failedAnswer_def)
      apply (rule exI [of _ ?trs])
      apply (simp add: props)
      done
  qed
  have 2: "\<exists>p w'. handleSubmitExam exec gen state uid eid examData auto w = (Inr p, w')
         \<and> status (sub_answers p ! length pre) = Some (lit ''not-answered'')"
    if h: "questions examData = Some (pre @ q # post) \<and> \<not> truthy (sourceOf state q)"
  proof -
    from h have qs: "questions examData = Some (pre @ q # post)" by simp
    have "gradeQuestion exec gen state q ?w1 = ((notAnswered q, None), ?w1)"
      using h by (simp add: gradeQuestion_unattempted)
    then show ?thesis
      by (simp add: handleSubmitExam_Some [OF qs] gradeLoop_nth notAnswered_def)
  qed
  have 3: "\<exists>p w'. handleSubmitExam exec gen state uid eid examData auto w = (Inr p, w')
         \<and> status (sub_answers p ! length pre) = status a"
    if h: "questions examData = Some (pre @ q # post) \<and> answers state (q_id q) = Some a
      \<and> ans_sourceCode a = Some src \<and> src \<noteq> []
      \<and> fst (exec (submitInput state src q) ?w1) = Inr result"
  proof -
    from h have qs: "questions examData = Some (pre @ q # post)"
      and a: "answers state (q_id q) = Some a" "ans_sourceCode a = Some src" and n: "src \<noteq> []"
      by simp_all
    obtain w2 where "exec (submitInput state src q) ?w1 = (Inr result, w2)"
      using h by (metis prod.collapse)
    then have "fst (fst (gradeQuestion exec gen state q ?w1)) = gradedAnswer a q result"
      by (simp add: gradeQuestion_def a n)
    then show ?thesis
      by (simp add: handleSubmitExam_Some [OF qs] gradeLoop_nth gradedAnswer_def)
  qed
  from 1 2 3 show ?thesis by blast
qed

lemmas flow_defs = executeCode_def executeCodeFlow_def scripted_def okResponse_def
  pistonRequest_def orElse_def orUndefined_def trim_def lit_def isWhiteSpace_def Let_def

lemma marks_2_of_2: "jsmul (jsdiv (Finite 2) (Finite 2)) (Finite 100) = Finite 100"
  by code_simp

lemma marks_1_of_2: "jsmul (jsdiv (Finite 1) (Finite 2)) (Finite 100) = Finite 50"
  by code_simp

lemma marks_3_of_4: "jsmul (jsdiv (Finite 3) (Finite 4)) (Finite 100) = Finite 75"
  by code_simp

lemma marks_7_of_25: "jsmul (jsdiv (Finite 7) (Finite 25)) (Finite 100) = Finite (28 + 1 / 2 ^ 48)"
  by code_simp

lemma mean_100_50_0:
  "jsdiv (foldl jsadd (Finite 0) [Finite 100, Finite 50, Finite 0]) (Finite 3) = Finite 50"
  by code_simp

lemma score_answers:
  "map marksOf (answersOf (handleSubmitExam (executeCode scripted) fixedUuid submitState
                             (lit ''u1'') (lit ''e1'') scoreExam None scoreScript))
     = [Finite 100, Finite 50, Finite 0]"
  by (simp add: answersOf_def handleSubmitExam_def submit_defs flow_defs submitInput_def
                gradedAnswer_def notAnswered_def marksForQuestion_def marksOf_def ofCount_def
                marks_2_of_2 marks_1_of_2
           del: jsdiv.simps jsmul.simps jsadd.simps)

theorem handleSubmitExam_score_witness:
  "marksForQuestion \<lparr>results = [], totalPassed = 3, totalCases = 4\<rparr> = Finite 75
   \<and> map marksOf (answersOf (handleSubmitExam (executeCode scripted) fixedUuid submitState
                               (lit ''u1'') (lit ''e1'') scoreExam None scoreScript))
       = [Finite 100, Finite 50, Finite 0]
   \<and> scoreOf (handleSubmitExam (executeCode scripted) fixedUuid submitState
                (lit ''u1'') (lit ''e1'') scoreExam None scoreScript) = Some (Finite 50)"
proof -
  let ?qs = "[mkQuestion ''q1'' [oneCase ''a'' ''1'', oneCase ''b'' ''1''],
              mkQuestion ''q2'' [oneCase ''c'' ''2'', oneCase ''d'' ''3''],
              mkQuestion ''q3'' [oneCase ''e'' ''5'']]"
  let ?R = "handleSubmitExam (executeCode scripted) fixedUuid submitState
              (lit ''u1'') (lit ''e1'') scoreExam None scoreScript"
  note inst = handleSubmitExam_score
    [where result = "\<lparr>results = [], totalPassed = 3, totalCases = 4\<rparr>"
       and examData = scoreExam and qs = ?qs and exec = "executeCode scripted"
       and gen = fixedUuid and state = submitState and uid = "lit ''u1''"
       and eid = "lit ''e1''" and auto = None and w = scoreScript]
  have q: "questions scoreExam = Some ?qs"
    by (simp add: scoreExam_def)
  have c: "0 < totalCases \<lparr>results = [], totalPassed = 3, totalCases = 4\<rparr>"
    by simp
  from inst c have "marksForQuestion \<lparr>results = [], totalPassed = 3, totalCases = 4\<rparr>
      = jsmul (jsdiv (Finite (of_nat (totalPassed \<lparr>results = [], totalPassed = 3, totalCases = 4\<rparr>)))
                     (Finite (of_nat (totalCases \<lparr>results = [], totalPassed = 3, totalCases = 4\<rparr>))))
              (Finite 100)"
    by blast
  then have m: "marksForQuestion \<lparr>results = [], totalPassed = 3, totalCases = 4\<rparr> = Finite 75"
    by (simp add: marks_3_of_4 del: jsdiv.simps jsmul.simps)
  from inst q obtain p w' where p: "?R = (Inr p, w')"
    and s: "score p = (if ?qs = [] then Finite 0
                       else jsdiv (foldl jsadd (Finite 0) (map marksOf (sub_answers p)))
                              (Finite (of_nat (length ?qs))))"
    by blast
  have "sub_answers p = answersOf ?R"
    by (simp add: p answersOf_def)
  then have "score p = Finite 50"
    using s by (simp add: score_answers mean_100_50_0 del: jsdiv.simps jsadd.simps foldl.simps)
  then have "scoreOf ?R = Some (Finite 50)"
    by (simp add: p scoreOf_def)
  with m score_answers show ?thesis by blast
qed

theorem handleSubmitExam_score_counterexample:
  "totalPassed sevenOf25 = 7 \<and> totalCases sevenOf25 = 25
   \<and> marksForQuestion sevenOf25 = Finite (28 + 1 / 2 ^ 48)
   \<and> marksForQuestion sevenOf25
       \<noteq> Finite (100 * of_nat (totalPassed sevenOf25) / of_nat (totalCases sevenOf25))
   \<and> questions noQuestionsExam = None
   \<and> scoreOf (handleSubmitExam scriptedExec fixedUuid submitState (lit ''u1'') (lit ''e1'')
                 noQuestionsExam None []) = None"
  by (simp add: sevenOf25_def marksForQuestion_def ofCount_def marks_7_of_25
                noQuestionsExam_def handleSubmitExam_None scoreOf_def
           del: jsdiv.simps jsmul.simps)

theorem handleSubmitExam_unattempted_witness:
  "\<not> truthy (sourceOf submitState (mkQuestion ''q3'' [oneCase ''e'' ''5'']))
   \<and> answersOf (handleSubmitExam (executeCode scripted) fixedUuid submitState
                  (lit ''u1'') (lit ''e1'') scoreExam None scoreScript) ! 2
       = notAnswered (mkQuestion ''q3'' [oneCase ''e'' ''5''])
   \<and> map sourceCode
        (fst (snd (handleSubmitExam (logged (executeCode scripted)) (unlogged fixedUuid)
                     submitState (lit ''u1'') (lit ''e1'') scoreExam None ([], scoreScript))))
       = [lit ''print(1)'', lit ''print(2)'']"
proof -
  let ?pre = "[mkQuestion ''q1'' [oneCase ''a'' ''1'', oneCase ''b'' ''1''],
               mkQuestion ''q2'' [oneCase ''c'' ''2'', oneCase ''d'' ''3'']]"
  let ?q = "mkQuestion ''q3'' [oneCase ''e'' ''5'']"
  let ?R = "handleSubmitExam (executeCode scripted) fixedUuid submitState
              (lit ''u1'') (lit ''e1'') scoreExam None scoreScript"
  have h1: "questions scoreExam = Some (?pre @ ?q # [])"
    by (simp add: scoreExam_def)
  have h2: "\<not> truthy (sourceOf submitState ?q)"
    by (simp add: truthy_def sourceOf_def submit_defs lit_def)
  note inst = handleSubmitExam_unattempted
    [where exec = "executeCode scripted" and gen = fixedUuid and uid = "lit ''u1''"
       and eid = "lit ''e1''" and auto = None and w = scoreScript, OF h1 h2]
  from inst obtain p w' where p: "?R = (Inr p, w')"
    and a: "sub_answers p ! length ?pre = notAnswered ?q"
    by blast
  have 1: "answersOf ?R ! 2 = notAnswered ?q"
    using a by (simp add: p answersOf_def numeral_2_eq_2)
  have "fst (snd (handleSubmitExam (logged (executeCode scripted)) (unlogged fixedUuid)
                     submitState (lit ''u1'') (lit ''e1'') scoreExam None ([], scoreScript)))
        = fst (snd (handleSubmitExam (logged (executeCode scripted)) (unlogged fixedUuid)
                     submitState (lit ''u1'') (lit ''e1'')
                     (scoreExam\<lparr>questions := Some (?pre @ [])\<rparr>) None ([], scoreScript)))"
    using inst by blast
  also have "\<dots> = concat (map (callsFor submitState) ?pre)"
    by (simp add: handleSubmitExam_log)
  finally have 2: "map sourceCode
        (fst (snd (handleSubmitExam (logged (executeCode scripted)) (unlogged fixedUuid)
                     submitState (lit ''u1'') (lit ''e1'') scoreExam None ([], scoreScript))))
       = [lit ''print(1)'', lit ''print(2)'']"
    by (simp add: callsFor_def sourceOf_def submitInput_def submit_defs lit_def)
  from h2 1 2 show ?thesis by blast
qed

lemma fail_statuses:
  "map status (answersOf (handleSubmitExam scriptedExec fixedUuid submitState
                            (lit ''u1'') (lit ''e1'') failExam None failScript2))
     = [Some (lit ''not-answered''), Some (lit ''not-answered''), Some (lit ''not-answered'')]"
  by (simp add: answersOf_def handleSubmitExam_def submit_defs scriptedExec_def submitInput_def
                gradedAnswer_def failedAnswer_def notAnswered_def fixedUuid_def
           del: jsdiv.simps jsmul.simps jsadd.simps)

theorem handleSubmitExam_raises_counterexample:
  "sourceOf submitState (mkQuestion ''q3'' [oneCase ''e'' ''5'']) = Some []
   \<and> fst (scriptedExec (submitInput submitState (lit ''print(1)'')
                          (mkQuestion ''q1'' [oneCase ''a'' ''1'']))
           (snd (gradeLoop scriptedExec fixedUuid submitState
                   [mkQuestion ''q3'' [oneCase ''e'' ''5'']] [] (Finite 0) failScript2)))
       = Inl (JsError (Some (lit ''Failed to fetch'')))
   \<and> status (answersOf (handleSubmitExam scriptedExec fixedUuid submitState
                          (lit ''u1'') (lit ''e1'') failExam None failScript2) ! 1)
       = status (answersOf (handleSubmitExam scriptedExec fixedUuid submitState
                              (lit ''u1'') (lit ''e1'') failExam None failScript2) ! 0)
   \<and> status (answersOf (handleSubmitExam scriptedExec fixedUuid submitState
                          (lit ''u1'') (lit ''e1'') failExam None failScript2) ! 1)
       = status (answersOf (handleSubmitExam scriptedExec fixedUuid submitState
                              (lit ''u1'') (lit ''e1'') failExam None failScript2) ! 2)"
proof -
  let ?A = "answersOf (handleSubmitExam scriptedExec fixedUuid submitState
                          (lit ''u1'') (lit ''e1'') failExam None failScript2)"
  have 1: "sourceOf submitState (mkQuestion ''q3'' [oneCase ''e'' ''5'']) = Some []"
    by (simp add: sourceOf_def submit_defs lit_def)
  have 2: "fst (scriptedExec (submitInput submitState (lit ''print(1)'')
                          (mkQuestion ''q1'' [oneCase ''a'' ''1'']))
           (snd (gradeLoop scriptedExec fixedUuid submitState
                   [mkQuestion ''q3'' [oneCase ''e'' ''5'']] [] (Finite 0) failScript2)))
       = Inl (JsError (Some (lit ''Failed to fetch'')))"
    by (simp add: submit_defs scriptedExec_def lit_def)
  have "map status ?A ! 1 = map status ?A ! 0" and "map status ?A ! 1 = map status ?A ! 2"
    by (simp_all only: fail_statuses) simp_all
  moreover have "length ?A = 3"
    using arg_cong [OF fail_statuses, of length] by simp
  ultimately have "status (?A ! 1) = status (?A ! 0)" and "status (?A ! 1) = status (?A ! 2)"
    by simp_all
  with 1 2 show ?thesis by blast
qed

theorem handleSubmitExam_raises_witness:
  "marks (answersOf (handleSubmitExam scriptedExec fixedUuid submitState
                       (lit ''u1'') (lit ''e1'') failExam None failScript2) ! 1)
     = Some (Finite 0)
   \<and> status (answersOf (handleSubmitExam scriptedExec fixedUuid submitState
                          (lit ''u1'') (lit ''e1'') failExam None failScript2) ! 1)
       = Some (lit ''not-answered'')
   \<and> ans_sourceCode (answersOf (handleSubmitExam scriptedExec fixedUuid submitState
                          (lit ''u1'') (lit ''e1'') failExam None failScript2) ! 1)
       = Some (lit ''print(1)'')
   \<and> (case testResults (answersOf (handleSubmitExam scriptedExec fixedUuid submitState
                          (lit ''u1'') (lit ''e1'') failExam None failScript2) ! 1) of
         None \<Rightarrow> False
       | Some trs \<Rightarrow> map actualOutput trs = [lit ''Execution Error on Submit''])"
proof -
  let ?pre = "[mkQuestion ''q3'' [oneCase ''e'' ''5'']]"
  let ?q = "mkQuestion ''q1'' [oneCase ''a'' ''1'']"
  let ?post = "[mkQuestion ''q2'' [oneCase ''c'' ''2'']]"
  let ?a = "mkAnswer ''q1'' ''print(1)''"
  let ?R = "handleSubmitExam scriptedExec fixedUuid submitState
              (lit ''u1'') (lit ''e1'') failExam None failScript2"
  have h: "questions failExam = Some (?pre @ ?q # ?post)
           \<and> answers submitState (q_id ?q) = Some ?a
           \<and> ans_sourceCode ?a = Some (lit ''print(1)'') \<and> lit ''print(1)'' \<noteq> []
           \<and> fst (scriptedExec (submitInput submitState (lit ''print(1)'') ?q)
                  (snd (gradeLoop scriptedExec fixedUuid submitState ?pre [] (Finite 0)
                          failScript2)))
               = Inl (JsError (Some (lit ''Failed to fetch'')))"
    by (simp add: submit_defs scriptedExec_def lit_def)
  note inst = handleSubmitExam_raises
    [where exec = scriptedExec and gen = fixedUuid and uid = "lit ''u1''"
       and eid = "lit ''e1''" and auto = None and w = failScript2
       and examData = failExam and state = submitState and pre = ?pre and q = ?q
       and post = ?post and a = ?a and src = "lit ''print(1)''"
       and e = "JsError (Some (lit ''Failed to fetch''))",
     THEN conjunct1, THEN mp, OF h]
  from inst obtain p w' trs where p: "?R = (Inr p, w')"
    and e: "sub_answers p ! length ?pre
             = ?a\<lparr>questionId := q_id ?q, questionText := Some (q_text ?q),
                  testResults := Some trs, status := Some (lit ''not-answered''),
                  marks := Some (Finite 0)\<rparr>"
    and l: "length trs = length (case q_testCases ?q of None \<Rightarrow> [] | Some tcs \<Rightarrow> tcs)"
    and a: "list_all (\<lambda>r. actualOutput r = lit ''Execution Error on Submit'' \<and> \<not> isCorrect r
                           \<and> error r = Some (lit ''Submission execution failed'')) trs"
    by blast
  from l have "length trs = 1"
    by (simp add: mkQuestion_def)
  then obtain r where r: "trs = [r]"
    by (cases trs) simp_all
  have A: "answersOf ?R = sub_answers p"
    by (simp add: p answersOf_def)
  have e': "sub_answers p ! Suc 0
             = ?a\<lparr>questionId := q_id ?q, questionText := Some (q_text ?q),
                  testResults := Some trs, status := Some (lit ''not-answered''),
                  marks := Some (Finite 0)\<rparr>"
    using e by simp
  show ?thesis
    using a by (simp add: A e' r mkAnswer_def)
qed

end
